theory Spec2Isabelle
  imports Complex_Main
begin

section \<open>Python values used by the search package\<close>

text \<open>
  Strings are \<open>string\<close> (lists of 8-bit characters): a Python \<open>str\<close> is modelled by its
  UTF-8 bytes, and \<open>lower\<close>, \<open>isspace\<close> are the ASCII parts of Python's. Python \<open>int\<close> is
  \<open>int\<close>; a \<open>float\<close> score is a \<open>real\<close> (rounding is not modelled). A \<open>dict\<close> whose
  iteration order matters is an association list in insertion order.
\<close>

subsection \<open>Slices\<close>

text \<open>
  \<open>xs[a:b]\<close>: a negative bound counts from the end, and both bounds are clipped to the
  list. \<open>xs[:b]\<close> is \<open>xs[0:b]\<close>.
\<close>

definition clamp_index :: "nat \<Rightarrow> int \<Rightarrow> nat" where
  "clamp_index n i = (if i < 0 then nat (max 0 (int n + i)) else min n (nat i))"

definition py_slice :: "'a list \<Rightarrow> int \<Rightarrow> int \<Rightarrow> 'a list" where
  "py_slice xs a b =
     take (clamp_index (length xs) b - clamp_index (length xs) a)
          (drop (clamp_index (length xs) a) xs)"

definition py_slice_to :: "'a list \<Rightarrow> int \<Rightarrow> 'a list" where
  "py_slice_to xs b = py_slice xs 0 b"

subsection \<open>Strings\<close>

definition is_space :: "char \<Rightarrow> bool" where
  "is_space c = ((9 \<le> (of_char c :: nat) \<and> (of_char c :: nat) \<le> 13)
               \<or> (28 \<le> (of_char c :: nat) \<and> (of_char c :: nat) \<le> 32))"

definition char_lower :: "char \<Rightarrow> char" where
  "char_lower c =
     (if 65 \<le> (of_char c :: nat) \<and> (of_char c :: nat) \<le> 90
      then char_of ((of_char c :: nat) + 32) else c)"

definition lower :: "string \<Rightarrow> string" where
  "lower s = map char_lower s"

definition strip :: "string \<Rightarrow> string" where
  "strip s = rev (dropWhile is_space (rev (dropWhile is_space s)))"

text \<open>\<open>s.split()\<close>: the maximal runs of non-whitespace characters, in order.\<close>

fun split_aux :: "string \<Rightarrow> string \<Rightarrow> string list" where
  "split_aux [] w = (if w = [] then [] else [w])"
| "split_aux (c # cs) w =
     (if is_space c then (if w = [] then split_aux cs [] else w # split_aux cs [])
      else split_aux cs (w @ [c]))"

definition split :: "string \<Rightarrow> string list" where
  "split s = split_aux s []"

fun join :: "string \<Rightarrow> string list \<Rightarrow> string" where
  "join sep [] = []"
| "join sep [w] = w"
| "join sep (w # v # ws) = w @ sep @ join sep (v # ws)"

definition startswith :: "string \<Rightarrow> string \<Rightarrow> bool" where
  "startswith t q = (take (length q) t = q)"

definition endswith :: "string \<Rightarrow> string \<Rightarrow> bool" where
  "endswith t q = startswith (rev t) (rev q)"

text \<open>\<open>t.find(q)\<close>: the least index where \<open>q\<close> starts in \<open>t\<close>, or \<open>-1\<close>.\<close>

fun find_from :: "string \<Rightarrow> string \<Rightarrow> nat \<Rightarrow> int" where
  "find_from [] q i = (if q = [] then int i else - 1)"
| "find_from (c # cs) q i =
     (if startswith (c # cs) q then int i else find_from cs q (Suc i))"

definition str_find :: "string \<Rightarrow> string \<Rightarrow> int" where
  "str_find t q = find_from t q 0"

text \<open>\<open>q in t\<close> on strings.\<close>

definition contains :: "string \<Rightarrow> string \<Rightarrow> bool" where
  "contains t q = (str_find t q \<noteq> - 1)"

text \<open>\<open>t.rfind(q)\<close>: the greatest index where \<open>q\<close> starts in \<open>t\<close>, or \<open>-1\<close>.\<close>

fun rfind_from :: "string \<Rightarrow> string \<Rightarrow> nat \<Rightarrow> int \<Rightarrow> int" where
  "rfind_from [] q i best = (if q = [] then int i else best)"
| "rfind_from (c # cs) q i best =
     rfind_from cs q (Suc i) (if startswith (c # cs) q then int i else best)"

definition str_rfind :: "string \<Rightarrow> string \<Rightarrow> int" where
  "str_rfind t q = rfind_from t q 0 (- 1)"

text \<open>\<open>str(n)\<close> of an integer: decimal digits, with a sign when negative.\<close>

definition digit_char :: "nat \<Rightarrow> char" where
  "digit_char d = char_of (48 + d)"

fun str_nat :: "nat \<Rightarrow> string" where
  "str_nat n = (if n < 10 then [digit_char n] else str_nat (n div 10) @ [digit_char (n mod 10)])"

definition str_int :: "int \<Rightarrow> string" where
  "str_int i = (if i < 0 then CHR ''-'' # str_nat (nat (- i)) else str_nat (nat i))"

section \<open>External collaborators\<close>

text \<open>
  The hash functions of \<open>hashlib\<close>, \<open>uuid.uuid5\<close> in the DNS namespace, \<open>fnmatch\<close>,
  the format extractors (PyMuPDF, BeautifulSoup, python-docx), the sentence embedder and
  the regular-expression substitution of \<open>highlight_query\<close> are library code. The model
  takes them as the fields of an environment; every theorem holds for every environment
  unless it says otherwise. Two failures are fields as well: \<open>encode_error\<close> gives the
  \<open>UnicodeEncodeError\<close> of \<open>str.encode()\<close> for a string that cannot be encoded (a file
  name that holds a lone surrogate), and \<open>storage_error\<close> is the SQLite failure of the write
  of a file row: for a path whose row cannot be written it gives the text of the exception
  that \<open>Catalog.upsert_file\<close> logs and raises again.
\<close>

type_synonym vec = "real list"

record env =
  sha1_hex :: "string \<Rightarrow> string"
  sha256_hex :: "string \<Rightarrow> string"
  uuid5_dns :: "string \<Rightarrow> string"
  fnmatch :: "string \<Rightarrow> string \<Rightarrow> bool"
  extract_pdf :: "string \<Rightarrow> string option"
  extract_html :: "string \<Rightarrow> string option"
  extract_docx :: "string \<Rightarrow> string option"
  embed :: "string list \<Rightarrow> vec list option"
  qdrant_up :: bool
  re_highlight :: "string list \<Rightarrow> string \<Rightarrow> string"
  encode_error :: "string \<Rightarrow> string option"
  storage_error :: "string \<Rightarrow> string option"

section \<open>Identity (ids.py)\<close>

definition file_id :: "env \<Rightarrow> string \<Rightarrow> int \<Rightarrow> int \<Rightarrow> string" where
  "file_id E path mtime sz = sha1_hex E (path @ ''|'' @ str_int mtime @ ''|'' @ str_int sz)"

definition chunk_id :: "env \<Rightarrow> string \<Rightarrow> int \<Rightarrow> string" where
  "chunk_id E fid idx = uuid5_dns E (fid @ ''_'' @ str_int idx)"

section \<open>Catalog (storage.py)\<close>

text \<open>
  The SQLite tables as finite maps and lists. \<open>files\<close> is keyed by its primary key
  \<open>file_id\<close>; \<open>chunks\<close> holds the chunk rows in insertion order. The \<open>indexed_at\<close> and
  \<open>created_at\<close> timestamps are not modelled. The operations below are the writes that
  succeed: \<open>insert_chunks\<close> and \<open>fts_insert\<close> catch their SQLite errors themselves, and the
  error that \<open>upsert_file\<close> raises again is an exception of \<open>_process_file\<close> (see
  \<open>process_file_raises\<close>).
  Modelled from the spec: the table \<open>chunks_fts\<close> (its schema file is not among the
  sources) is keyed by \<open>chunk_id\<close>, so that \<open>fts_insert\<close> upserts a row.
\<close>

record file_row =
  f_path :: string
  f_size :: int
  f_mtime :: int
  f_sha256 :: string

record chunk_row =
  r_chunk_id :: string
  r_file_id :: string
  r_idx :: int
  r_token_start :: int
  r_token_end :: int

record catalog =
  files :: "string \<rightharpoonup> file_row"
  chunks :: "chunk_row list"
  chunks_fts :: "string \<rightharpoonup> (string \<times> string)"

definition catalog_generate_file_id :: "env \<Rightarrow> string \<Rightarrow> int \<Rightarrow> int \<Rightarrow> string" where
  "catalog_generate_file_id E path mtime sz =
     sha1_hex E (path @ ''|'' @ str_int mtime @ ''|'' @ str_int sz)"

text \<open>\<open>upsert_file(path, size, mtime, sha256)\<close> returns the key it wrote.\<close>

definition upsert_file ::
  "env \<Rightarrow> catalog \<Rightarrow> string \<Rightarrow> int \<Rightarrow> int \<Rightarrow> string \<Rightarrow> string \<times> catalog" where
  "upsert_file E cat path sz mtime sha =
     (let fid = catalog_generate_file_id E path mtime sz
      in (fid, cat\<lparr>files := (files cat)(fid \<mapsto>
            \<lparr>f_path = path, f_size = sz, f_mtime = mtime, f_sha256 = sha\<rparr>)\<rparr>))"

section \<open>Data contracts (types.py) and configuration (config.py)\<close>

record chunk =
  c_path :: string
  c_file_id :: string
  c_chunk_id :: string
  c_text :: string
  c_token_start :: int
  c_token_end :: int
  c_mtime :: int
  c_sha256 :: string
  c_idx :: int

record index_config =
  max_tokens :: int
  overlap :: int
  allow_exts :: "string list"
  exclude_patterns :: "string list"
  default_max_items :: int

section \<open>Chunker (indexer.py, \<open>_chunk_text\<close>)\<close>

text \<open>
  The \<open>while\<close> loop of \<open>_chunk_text\<close>, from token position \<open>i\<close> with \<open>chunk_idx\<close> chunks
  already in \<open>acc\<close>. The loop has no bound of its own, so it is a partial function: the
  value \<open>None\<close> stands for a loop that never leaves. \<open>mtime\<close> is the modification time the
  loop reads from the file's stat on every round.
\<close>

definition make_chunk ::
  "env \<Rightarrow> string \<Rightarrow> string \<Rightarrow> int \<Rightarrow> string list \<Rightarrow> int \<Rightarrow> int \<Rightarrow> chunk" where
  "make_chunk E file_path fid mtime chunk_words i chunk_idx =
     \<lparr>c_path = file_path,
      c_file_id = fid,
      c_chunk_id = chunk_id E fid chunk_idx,
      c_text = join '' '' chunk_words,
      c_token_start = i,
      c_token_end = i + int (length chunk_words),
      c_mtime = mtime,
      c_sha256 = sha256_hex E (join '' '' chunk_words),
      c_idx = chunk_idx\<rparr>"

partial_function (option) chunk_loop ::
  "env \<Rightarrow> index_config \<Rightarrow> string \<Rightarrow> string \<Rightarrow> int \<Rightarrow> string list
     \<Rightarrow> int \<Rightarrow> int \<Rightarrow> chunk list \<Rightarrow> chunk list option" where
  "chunk_loop E cfg file_path fid mtime words i chunk_idx acc =
     (if i < int (length words) then
        (if strip (join '' '' (py_slice words i (i + max_tokens cfg))) = [] then Some acc
         else chunk_loop E cfg file_path fid mtime words
                (i + (max_tokens cfg - overlap cfg)) (chunk_idx + 1)
                (acc @ [make_chunk E file_path fid mtime
                          (py_slice words i (i + max_tokens cfg)) i chunk_idx]))
      else Some acc)"

declare chunk_loop.simps [code]

definition chunk_text ::
  "env \<Rightarrow> index_config \<Rightarrow> string \<Rightarrow> string \<Rightarrow> string \<Rightarrow> int \<Rightarrow> chunk list option" where
  "chunk_text E cfg txt file_path fid mtime =
     chunk_loop E cfg file_path fid mtime (split txt) 0 0 []"

text \<open>
  The windows as the specification words them: window \<open>j\<close> starts at token
  \<open>j * (max_tokens - overlap)\<close>, would end \<open>max_tokens\<close> tokens later, and is cut at the
  number \<open>n\<close> of tokens.
\<close>

definition window_start :: "index_config \<Rightarrow> nat \<Rightarrow> int" where
  "window_start cfg j = int j * (max_tokens cfg - overlap cfg)"

definition window_end :: "index_config \<Rightarrow> nat \<Rightarrow> nat \<Rightarrow> int" where
  "window_end cfg n j = min (window_start cfg j + max_tokens cfg) (int n)"

text \<open>The number of windows that start inside \<open>n\<close> tokens: \<open>n\<close> over the stride, rounded up.\<close>

definition window_count :: "index_config \<Rightarrow> nat \<Rightarrow> nat" where
  "window_count cfg n =
     nat ((int n + (max_tokens cfg - overlap cfg) - 1) div (max_tokens cfg - overlap cfg))"

definition window_chunk ::
  "env \<Rightarrow> index_config \<Rightarrow> string \<Rightarrow> string \<Rightarrow> int \<Rightarrow> string list \<Rightarrow> nat \<Rightarrow> chunk" where
  "window_chunk E cfg file_path fid mtime words j =
     \<lparr>c_path = file_path,
      c_file_id = fid,
      c_chunk_id = chunk_id E fid (int j),
      c_text = join '' '' (py_slice words (window_start cfg j) (window_end cfg (length words) j)),
      c_token_start = window_start cfg j,
      c_token_end = window_end cfg (length words) j,
      c_mtime = mtime,
      c_sha256 = sha256_hex E
        (join '' '' (py_slice words (window_start cfg j) (window_end cfg (length words) j))),
      c_idx = int j\<rparr>"


section \<open>Snippets (snippets.py)\<close>

definition earliest_word :: "string \<Rightarrow> string \<Rightarrow> int \<Rightarrow> int" where
  "earliest_word text_lower word earliest_pos =
     (if str_find text_lower word \<noteq> - 1 \<and> str_find text_lower word < earliest_pos
      then str_find text_lower word else earliest_pos)"

definition find_best_match :: "string \<Rightarrow> string \<Rightarrow> int" where
  "find_best_match txt query =
     (if str_find (lower txt) (lower query) \<noteq> - 1 then str_find (lower txt) (lower query)
      else if split (lower query) = [] then - 1
      else if fold (earliest_word (lower txt)) (split (lower query)) (int (length txt))
                < int (length txt)
           then fold (earliest_word (lower txt)) (split (lower query)) (int (length txt))
           else - 1)"

definition make_snippet :: "string \<Rightarrow> string \<Rightarrow> int \<Rightarrow> string \<times> int \<times> int" where
  "make_snippet chunk_txt query radius =
     (if chunk_txt = [] \<or> query = []
      then (py_slice_to chunk_txt (radius * 2), 0, min (radius * 2) (int (length chunk_txt)))
      else if find_best_match chunk_txt query = - 1
      then (py_slice_to chunk_txt (radius * 2), 0, min (radius * 2) (int (length chunk_txt)))
      else
        (let match_pos = find_best_match chunk_txt query;
             start_pos = max 0 (match_pos - radius);
             end_pos = min (int (length chunk_txt)) (match_pos + int (length query) + radius)
         in ((if start_pos > 0 then ''...'' else [])
               @ py_slice chunk_txt start_pos end_pos
               @ (if end_pos < int (length chunk_txt) then ''...'' else []),
             start_pos, end_pos)))"

text \<open>\<open>re.sub(r'\s+', ' ', s)\<close>: every maximal run of whitespace becomes one space.\<close>

function collapse_ws :: "string \<Rightarrow> string" where
  "collapse_ws [] = []"
| "collapse_ws (c # cs) =
     (if is_space c then CHR '' '' # collapse_ws (dropWhile is_space cs)
      else c # collapse_ws cs)"
  by pat_completeness auto
termination
  by (relation "measure length") (auto simp: length_dropWhile_le less_Suc_eq_le)

definition clean_snippet :: "string \<Rightarrow> string" where
  "clean_snippet snippet = strip (collapse_ws snippet)"

definition truncate_snippet :: "string \<Rightarrow> int \<Rightarrow> string" where
  "truncate_snippet snippet max_length =
     (if int (length snippet) \<le> max_length then snippet
      else if real_of_int (str_rfind (py_slice_to snippet max_length) '' '')
                > real_of_int max_length * 0.8
      then py_slice_to (py_slice_to snippet max_length)
             (str_rfind (py_slice_to snippet max_length) '' '') @ ''...''
      else py_slice_to snippet max_length @ ''...'')"

definition highlight_query :: "env \<Rightarrow> string \<Rightarrow> string \<Rightarrow> string" where
  "highlight_query E snippet query =
     (if query = [] then snippet else re_highlight E (split (lower query)) snippet)"

section \<open>Retriever (retriever.py)\<close>

record score_breakdown =
  cosine :: real
  bm25 :: real
  exact :: real
  position_bonus :: real
  final :: real

record scored_chunk =
  sc_chunk_id :: string
  sc_file_id :: string
  sc_path :: string
  sc_text :: string
  sc_score :: real
  sc_breakdown :: score_breakdown
  sc_chunk_idx :: int

record search_config =
  top_k :: int
  lex_k :: int
  vec_k :: int
  merge_k :: int
  timeout_sec :: real
  bm25_weight :: real
  cosine_weight :: real
  exact_boost :: real
  early_pos_boost :: real
  cache_size :: int
  snippet_radius :: int
  max_results_per_file :: int

record weights =
  w_bm25_weight :: real
  w_cosine_weight :: real

record boosts =
  b_exact_boost :: real
  b_early_pos_boost :: real

text \<open>
  \<open>CandidateDict\<close>: a dict from chunk id to raw score, as an association list in insertion
  order. \<open>dict_set\<close> is the assignment \<open>d[k] = v\<close>, \<open>dict_get\<close> is \<open>d.get(k, default)\<close>.
\<close>

type_synonym candidates = "(string \<times> real) list"

fun dict_set :: "'k \<Rightarrow> 'v \<Rightarrow> ('k \<times> 'v) list \<Rightarrow> ('k \<times> 'v) list" where
  "dict_set k v [] = [(k, v)]"
| "dict_set k v ((k', v') # r) = (if k = k' then (k, v) # r else (k', v') # dict_set k v r)"

definition dict_of :: "('k \<times> 'v) list \<Rightarrow> ('k \<times> 'v) list" where
  "dict_of pairs = fold (\<lambda>kv d. dict_set (fst kv) (snd kv) d) pairs []"

definition dict_get :: "('k \<times> 'v) list \<Rightarrow> 'k \<Rightarrow> 'v \<Rightarrow> 'v" where
  "dict_get d k dflt = (case map_of d k of None \<Rightarrow> dflt | Some v \<Rightarrow> v)"

text \<open>
  What the collaborators hand to the retriever for one query: the query's embedding
  (\<open>None\<close> when the embedder is missing or fails), the hits of the vector store and the rows
  of the full-text search (\<open>None\<close> when the call raises).
\<close>

record retrieval =
  query_embedding :: "vec option"
  vector_hits :: "(string \<times> real) list option"
  fts_rows :: "(string \<times> real) list option"

definition vector_candidates :: "retrieval \<Rightarrow> candidates" where
  "vector_candidates R = (case vector_hits R of None \<Rightarrow> [] | Some hits \<Rightarrow> dict_of hits)"

definition lexical_candidates :: "retrieval \<Rightarrow> candidates" where
  "lexical_candidates R = (case fts_rows R of None \<Rightarrow> [] | Some rows \<Rightarrow> dict_of rows)"

definition chunk_meta :: "catalog \<Rightarrow> string \<Rightarrow> (chunk_row \<times> string) option" where
  "chunk_meta cat cid =
     (case find (\<lambda>r. r_chunk_id r = cid) (chunks cat) of
        None \<Rightarrow> None
      | Some r \<Rightarrow> (case files cat (r_file_id r) of
                     None \<Rightarrow> None
                   | Some f \<Rightarrow> Some (r, f_path f)))"

definition get_chunk_text :: "catalog \<Rightarrow> string \<Rightarrow> string option" where
  "get_chunk_text cat cid = map_option fst (chunks_fts cat cid)"

definition normalize_scores :: "candidates \<Rightarrow> candidates" where
  "normalize_scores cands =
     (if cands = [] then []
      else if Max (set (map snd cands)) = Min (set (map snd cands)) then cands
      else map (\<lambda>kv. (fst kv, (snd kv - Min (set (map snd cands)))
                               / (Max (set (map snd cands)) - Min (set (map snd cands)))))
               cands)"

definition calculate_exact_match :: "string \<Rightarrow> string \<Rightarrow> real" where
  "calculate_exact_match query txt =
     (if contains (lower txt) (strip (lower query)) then 1
      else if remdups (split (strip (lower query))) = [] then 0
      else if real (length (filter (\<lambda>w. w \<in> set (split (lower txt)))
                                   (remdups (split (strip (lower query))))))
                / real (length (remdups (split (strip (lower query))))) \<ge> 0.7
      then real (length (filter (\<lambda>w. w \<in> set (split (lower txt)))
                                (remdups (split (strip (lower query))))))
             / real (length (remdups (split (strip (lower query)))))
      else 0)"

text \<open>\<open>None\<close> is the \<open>ZeroDivisionError\<close> of \<open>pos / len(text_lower)\<close> on an empty text.\<close>

definition calculate_position_bonus :: "string \<Rightarrow> string \<Rightarrow> real option" where
  "calculate_position_bonus query txt =
     (if str_find (lower txt) (strip (lower query)) = - 1 then Some 0
      else if length (lower txt) = 0 then None
      else if real_of_int (str_find (lower txt) (strip (lower query)))
                / real (length (lower txt)) \<le> 0.3
      then Some (1 - real_of_int (str_find (lower txt) (strip (lower query)))
                       / real (length (lower txt)))
      else Some 0)"

text \<open>
  \<open>set(vec.keys()) | set(lex.keys())\<close>. Python leaves the iteration order of a set open;
  the model walks the vector keys first, then the lexical keys not yet met.
\<close>

definition all_chunk_ids :: "candidates \<Rightarrow> candidates \<Rightarrow> string list" where
  "all_chunk_ids vec_candidates lex_candidates =
     map fst vec_candidates
       @ filter (\<lambda>k. k \<notin> set (map fst vec_candidates)) (map fst lex_candidates)"

text \<open>
  The body of the scoring loop after its guards: the final score and the \<open>ScoredChunk\<close> of
  candidate \<open>cid\<close> with metadata \<open>m\<close>, text \<open>chunk_txt\<close>, exact-match bonus \<open>em\<close> and
  position bonus \<open>pb\<close>.
\<close>

definition final_score :: "weights \<Rightarrow> boosts \<Rightarrow> real \<Rightarrow> real \<Rightarrow> real \<Rightarrow> real \<Rightarrow> real" where
  "final_score W B bm25_score cosine_score em pb =
     (w_bm25_weight W * bm25_score + w_cosine_weight W * cosine_score)
       + b_exact_boost B * em + b_early_pos_boost B * pb"

definition make_scored_chunk ::
  "weights \<Rightarrow> boosts \<Rightarrow> string \<Rightarrow> chunk_row \<times> string \<Rightarrow> string \<Rightarrow> real \<Rightarrow> real \<Rightarrow> real \<Rightarrow> real
     \<Rightarrow> scored_chunk" where
  "make_scored_chunk W B cid m chunk_txt cosine_score bm25_score em pb =
     \<lparr>sc_chunk_id = cid,
      sc_file_id = r_file_id (fst m),
      sc_path = snd m,
      sc_text = chunk_txt,
      sc_score = final_score W B bm25_score cosine_score em pb,
      sc_breakdown =
        \<lparr>cosine = cosine_score,
         bm25 = bm25_score,
         exact = em,
         position_bonus = pb,
         final = final_score W B bm25_score cosine_score em pb\<rparr>,
      sc_chunk_idx = r_idx (fst m)\<rparr>"

text \<open>
  One round of the scoring loop: \<open>Inr None\<close> is the \<open>continue\<close> of a candidate without
  metadata or text, \<open>Inl\<close> an exception.
\<close>

definition score_one ::
  "catalog \<Rightarrow> string \<Rightarrow> candidates \<Rightarrow> candidates \<Rightarrow> weights \<Rightarrow> boosts \<Rightarrow> string
     \<Rightarrow> string + scored_chunk option" where
  "score_one cat query vec_scores_norm lex_scores_norm W B cid =
     (case chunk_meta cat cid of
        None \<Rightarrow> Inr None
      | Some m \<Rightarrow>
         (case get_chunk_text cat cid of
            None \<Rightarrow> Inr None
          | Some chunk_txt \<Rightarrow>
             if chunk_txt = [] then Inr None
             else
               (case calculate_position_bonus query chunk_txt of
                  None \<Rightarrow> Inl ''float division by zero''
                | Some pb \<Rightarrow>
                   Inr (Some (make_scored_chunk W B cid m chunk_txt
                     (dict_get vec_scores_norm cid 0) (dict_get lex_scores_norm cid 0)
                     (calculate_exact_match query chunk_txt) pb)))))"

fun score_all ::
  "catalog \<Rightarrow> string \<Rightarrow> candidates \<Rightarrow> candidates \<Rightarrow> weights \<Rightarrow> boosts \<Rightarrow> string list
     \<Rightarrow> string + scored_chunk list" where
  "score_all cat query vnorm lnorm W B [] = Inr []"
| "score_all cat query vnorm lnorm W B (cid # cids) =
     (case score_one cat query vnorm lnorm W B cid of
        Inl e \<Rightarrow> Inl e
      | Inr r \<Rightarrow>
         (case score_all cat query vnorm lnorm W B cids of
            Inl e \<Rightarrow> Inl e
          | Inr rs \<Rightarrow> Inr (case r of None \<Rightarrow> rs | Some sc \<Rightarrow> sc # rs)))"

text \<open>
  \<open>xs.sort(key=lambda x: x.score, reverse=True)\<close>: descending by score, and stable (equal
  scores keep their order), as insertion sort on the negated score is.
\<close>

definition sort_desc :: "scored_chunk list \<Rightarrow> scored_chunk list" where
  "sort_desc xs = sort_key (\<lambda>c. - sc_score c) xs"

definition default_weights :: "search_config \<Rightarrow> weights option \<Rightarrow> weights" where
  "default_weights cfg w =
     (case w of
        None \<Rightarrow> \<lparr>w_bm25_weight = bm25_weight cfg, w_cosine_weight = cosine_weight cfg\<rparr>
      | Some x \<Rightarrow> x)"

definition default_boosts :: "search_config \<Rightarrow> boosts option \<Rightarrow> boosts" where
  "default_boosts cfg b =
     (case b of
        None \<Rightarrow> \<lparr>b_exact_boost = exact_boost cfg, b_early_pos_boost = early_pos_boost cfg\<rparr>
      | Some x \<Rightarrow> x)"

definition merge_and_score ::
  "search_config \<Rightarrow> catalog \<Rightarrow> string \<Rightarrow> candidates \<Rightarrow> candidates
     \<Rightarrow> weights option \<Rightarrow> boosts option \<Rightarrow> string + scored_chunk list" where
  "merge_and_score cfg cat query vec_candidates lex_candidates w b =
     (if all_chunk_ids vec_candidates lex_candidates = [] then Inr []
      else
        (case score_all cat query (normalize_scores vec_candidates)
                (normalize_scores lex_candidates) (default_weights cfg w)
                (default_boosts cfg b) (all_chunk_ids vec_candidates lex_candidates) of
           Inl e \<Rightarrow> Inl e
         | Inr scored_chunks \<Rightarrow> Inr (py_slice_to (sort_desc scored_chunks) (merge_k cfg))))"

text \<open>\<open>file_best\<close>: a dict from file id to the list of its chunks, in first-met order.\<close>

fun dict_append :: "'k \<Rightarrow> 'v \<Rightarrow> ('k \<times> 'v list) list \<Rightarrow> ('k \<times> 'v list) list" where
  "dict_append k v [] = [(k, [v])]"
| "dict_append k v ((k', vs) # r) =
     (if k = k' then (k', vs @ [v]) # r else (k', vs) # dict_append k v r)"

definition file_best :: "scored_chunk list \<Rightarrow> (string \<times> scored_chunk list) list" where
  "file_best scored_chunks = fold (\<lambda>c d. dict_append (sc_file_id c) c d) scored_chunks []"

definition dedupe_by_file :: "scored_chunk list \<Rightarrow> int \<Rightarrow> scored_chunk list" where
  "dedupe_by_file scored_chunks n =
     sort_desc (concat (map (\<lambda>fc. py_slice_to (sort_desc (snd fc)) n)
                            (file_best scored_chunks)))"

text \<open>\<open>k or top_k\<close>: the default stands in for \<open>None\<close> and for \<open>0\<close>.\<close>

definition k_or_default :: "search_config \<Rightarrow> int option \<Rightarrow> int" where
  "k_or_default cfg k = (case k of None \<Rightarrow> top_k cfg | Some n \<Rightarrow> if n = 0 then top_k cfg else n)"

definition search ::
  "search_config \<Rightarrow> catalog \<Rightarrow> retrieval \<Rightarrow> string \<Rightarrow> int option
     \<Rightarrow> string + scored_chunk list" where
  "search cfg cat R query k =
     (case query_embedding R of
        None \<Rightarrow> Inr []
      | Some qe \<Rightarrow>
         (case merge_and_score cfg cat query (vector_candidates R) (lexical_candidates R)
                 None None of
            Inl e \<Rightarrow> Inl e
          | Inr scored_chunks \<Rightarrow>
             Inr (py_slice_to (dedupe_by_file scored_chunks 1) (k_or_default cfg k))))"

text \<open>
  A channel whose normalised scores lie in \<open>[0, 1]\<close>: it holds two different raw scores (so
  min-max normalisation applies), or its raw scores lie in \<open>[0, 1]\<close> already.
\<close>

definition channel_in_unit :: "candidates \<Rightarrow> bool" where
  "channel_in_unit cands =
     (Max (set (map snd cands)) \<noteq> Min (set (map snd cands))
      \<or> list_all (\<lambda>kv. 0 \<le> snd kv \<and> snd kv \<le> 1) cands)"


text \<open>
  What score fusion promises of a scored chunk: its score is the weighted sum of its four
  components, the two channel components are the normalised scores of its chunk id
  (\<open>0\<close> when absent), and the two bonuses are the exact-match and position bonuses of its
  text, each in \<open>[0, 1]\<close>.
\<close>

definition fused ::
  "weights \<Rightarrow> boosts \<Rightarrow> candidates \<Rightarrow> candidates \<Rightarrow> string \<Rightarrow> scored_chunk \<Rightarrow> bool" where
  "fused W B vec_scores_norm lex_scores_norm query sc =
     (sc_score sc = final (sc_breakdown sc)
      \<and> final (sc_breakdown sc)
          = w_bm25_weight W * bm25 (sc_breakdown sc)
            + w_cosine_weight W * cosine (sc_breakdown sc)
            + b_exact_boost B * exact (sc_breakdown sc)
            + b_early_pos_boost B * position_bonus (sc_breakdown sc)
      \<and> bm25 (sc_breakdown sc) = dict_get lex_scores_norm (sc_chunk_id sc) 0
      \<and> cosine (sc_breakdown sc) = dict_get vec_scores_norm (sc_chunk_id sc) 0
      \<and> exact (sc_breakdown sc) = calculate_exact_match query (sc_text sc)
      \<and> calculate_position_bonus query (sc_text sc) = Some (position_bonus (sc_breakdown sc))
      \<and> 0 \<le> exact (sc_breakdown sc) \<and> exact (sc_breakdown sc) \<le> 1
      \<and> 0 \<le> position_bonus (sc_breakdown sc) \<and> position_bonus (sc_breakdown sc) \<le> 1)"

section \<open>Search API (api.py)\<close>

record search_options =
  so_exact_match :: bool
  so_case_sensitive :: bool
  so_max_results_per_file :: int
  so_include_snippets :: bool
  so_snippet_radius :: int

text \<open>
  The \<open>opts\<close> dict of a call, by the keys \<open>run\<close> reads: \<open>None\<close> is an absent key. Other
  keys only enter the cache key and are left out.
\<close>

record opts =
  o_exact_match :: "bool option"
  o_case_sensitive :: "bool option"
  o_max_results_per_file :: "int option"
  o_include_snippets :: "bool option"
  o_snippet_radius :: "int option"

definition no_opts :: opts where
  "no_opts = \<lparr>o_exact_match = None, o_case_sensitive = None, o_max_results_per_file = None,
     o_include_snippets = None, o_snippet_radius = None\<rparr>"

record search_hit =
  h_path :: string
  h_score :: real
  h_breakdown :: score_breakdown
  h_file_type :: string
  h_chunk_id :: string
  h_snippet :: string
  h_context_range :: "int \<times> int"
  h_file_id :: string
  h_chunk_idx :: int

text \<open>The response is a dict from field names to values, in the order the code writes it.\<close>

datatype rvalue = VStr string | VInt int | VBool bool | VReal real | VItems "search_hit list"

type_synonym response = "(string \<times> rvalue) list"

text \<open>
  The cache key is the MD5 digest of the printed tuple \<open>(query, k, page, per_page, sorted
  opts)\<close>; the model keys the cache by the tuple itself, that is, it takes the digest to
  be free of collisions.
\<close>

type_synonym cache_key = "string \<times> int \<times> int \<times> int \<times> opts"

record api_state =
  cache :: "(cache_key \<times> response \<times> real) list"

definition search_options_of :: "search_config \<Rightarrow> opts \<Rightarrow> search_options" where
  "search_options_of cfg opt =
     \<lparr>so_exact_match = (case o_exact_match opt of None \<Rightarrow> False | Some v \<Rightarrow> v),
      so_case_sensitive = (case o_case_sensitive opt of None \<Rightarrow> False | Some v \<Rightarrow> v),
      so_max_results_per_file =
        (case o_max_results_per_file opt of None \<Rightarrow> max_results_per_file cfg | Some v \<Rightarrow> v),
      so_include_snippets = (case o_include_snippets opt of None \<Rightarrow> True | Some v \<Rightarrow> v),
      so_snippet_radius =
        (case o_snippet_radius opt of None \<Rightarrow> snippet_radius cfg | Some v \<Rightarrow> v)\<rparr>"

definition file_type_of :: "string \<Rightarrow> string" where
  "file_type_of path =
     (if path = [] then ''unknown''
      else if endswith path ''.md'' \<or> endswith path ''.markdown'' then ''markdown''
      else if endswith path ''.pdf'' then ''pdf''
      else if endswith path ''.txt'' \<or> endswith path ''.text'' then ''text''
      else if endswith path ''.html'' \<or> endswith path ''.htm'' then ''html''
      else if endswith path ''.docx'' \<or> endswith path ''.doc'' then ''document''
      else ''unknown'')"

definition hit_snippet :: "env \<Rightarrow> scored_chunk \<Rightarrow> string \<Rightarrow> search_options \<Rightarrow> string" where
  "hit_snippet E c query so =
     (if so_exact_match so
      then truncate_snippet
             (clean_snippet (fst (make_snippet (sc_text c) query (so_snippet_radius so)))) 200
      else highlight_query E
             (truncate_snippet
                (clean_snippet (fst (make_snippet (sc_text c) query (so_snippet_radius so)))) 200)
             query)"

definition create_search_hit ::
  "env \<Rightarrow> scored_chunk \<Rightarrow> string \<Rightarrow> search_options \<Rightarrow> search_hit" where
  "create_search_hit E c query so =
     \<lparr>h_path = sc_path c,
      h_score = sc_score c,
      h_breakdown = sc_breakdown c,
      h_file_type = file_type_of (sc_path c),
      h_chunk_id = sc_chunk_id c,
      h_snippet = (if so_include_snippets so then hit_snippet E c query so else []),
      h_context_range =
        (if so_include_snippets so
         then snd (make_snippet (sc_text c) query (so_snippet_radius so)) else (0, 0)),
      h_file_id = sc_file_id c,
      h_chunk_idx = sc_chunk_idx c\<rparr>"

text \<open>
  \<open>_get_cached_result\<close> at time \<open>now\<close>: an entry older than the TTL of 3600 seconds is
  deleted and counts as absent.
\<close>

definition get_cached_result ::
  "api_state \<Rightarrow> real \<Rightarrow> cache_key \<Rightarrow> response option \<times> api_state" where
  "get_cached_result st now key =
     (case map_of (cache st) key of
        None \<Rightarrow> (None, st)
      | Some entry \<Rightarrow>
          if now - snd entry > 3600
          then (None, st\<lparr>cache := filter (\<lambda>e. fst e \<noteq> key) (cache st)\<rparr>)
          else (Some (fst entry), st))"

text \<open>
  \<open>min(self._cache.keys(), key=timestamp)\<close>: the first key of least timestamp; on an empty
  cache \<open>min\<close> raises \<open>ValueError\<close>.
\<close>

fun oldest_entry ::
  "(cache_key \<times> response \<times> real) \<Rightarrow> (cache_key \<times> response \<times> real) list
     \<Rightarrow> (cache_key \<times> response \<times> real)" where
  "oldest_entry best [] = best"
| "oldest_entry best (e # es) =
     oldest_entry (if snd (snd e) < snd (snd best) then e else best) es"

definition cache_result ::
  "search_config \<Rightarrow> api_state \<Rightarrow> real \<Rightarrow> cache_key \<Rightarrow> response \<Rightarrow> string + api_state" where
  "cache_result cfg st now key result =
     (if int (length (cache st)) \<ge> cache_size cfg then
        (case cache st of
           [] \<Rightarrow> Inl ''min() arg is an empty sequence''
         | e # es \<Rightarrow>
             Inr (st\<lparr>cache := dict_set key (result, now)
                    (filter (\<lambda>x. fst x \<noteq> fst (oldest_entry e es)) (cache st))\<rparr>))
      else Inr (st\<lparr>cache := dict_set key (result, now) (cache st)\<rparr>))"

definition success_response ::
  "string \<Rightarrow> int \<Rightarrow> int \<Rightarrow> search_hit list \<Rightarrow> real \<Rightarrow> real \<Rightarrow> response" where
  "success_response query page per_page search_hits t0 t1 =
     [(''query'', VStr query),
      (''total_hits'', VInt (int (length search_hits))),
      (''page'', VInt page),
      (''per_page'', VInt per_page),
      (''total_pages'', VInt ((int (length search_hits) + per_page - 1) div per_page)),
      (''has_next'', VBool (page < (int (length search_hits) + per_page - 1) div per_page)),
      (''has_prev'', VBool (page > 1)),
      (''items'', VItems (py_slice search_hits ((page - 1) * per_page)
                            ((page - 1) * per_page + per_page))),
      (''search_time'', VReal (t1 - t0)),
      (''cache_hit'', VBool False),
      (''timestamp'', VInt \<lfloor>t1\<rfloor>)]"

definition error_response :: "string \<Rightarrow> int \<Rightarrow> int \<Rightarrow> string \<Rightarrow> real \<Rightarrow> real \<Rightarrow> response" where
  "error_response query page per_page e t0 t1 =
     [(''query'', VStr query),
      (''total_hits'', VInt 0),
      (''page'', VInt page),
      (''per_page'', VInt per_page),
      (''total_pages'', VInt 0),
      (''has_next'', VBool False),
      (''has_prev'', VBool False),
      (''items'', VItems []),
      (''search_time'', VReal (t1 - t0)),
      (''cache_hit'', VBool False),
      (''error'', VStr e),
      (''timestamp'', VInt \<lfloor>t1\<rfloor>)]"

text \<open>
  The ranked hits of a call: the retriever's chunks, deduplicated once more by the option
  when it is positive, each turned into a \<open>SearchHit\<close>.
\<close>

definition search_hits_of ::
  "env \<Rightarrow> search_options \<Rightarrow> string \<Rightarrow> scored_chunk list \<Rightarrow> search_hit list" where
  "search_hits_of E so query scored_chunks =
     map (\<lambda>c. create_search_hit E c query so)
       (if so_max_results_per_file so > 0
        then dedupe_by_file scored_chunks (so_max_results_per_file so)
        else scored_chunks)"

text \<open>
  The \<open>try\<close> block of \<open>run\<close>, given what \<open>self.retriever.search\<close> does (\<open>Inl\<close>: it raises).
  \<open>Inl\<close> is an exception of the block: the retriever's, the \<open>ZeroDivisionError\<close> of
  \<open>// per_page\<close>, or the \<open>ValueError\<close> of the eviction.
\<close>

definition run_body ::
  "search_config \<Rightarrow> env \<Rightarrow> api_state \<Rightarrow> real \<Rightarrow> real \<Rightarrow> string + scored_chunk list
     \<Rightarrow> string \<Rightarrow> int \<Rightarrow> int \<Rightarrow> search_options \<Rightarrow> cache_key
     \<Rightarrow> string + response \<times> api_state" where
  "run_body cfg E st t0 t1 outcome query page per_page so key =
     (case outcome of
        Inl e \<Rightarrow> Inl e
      | Inr scored_chunks \<Rightarrow>
          if per_page = 0 then Inl ''integer division or modulo by zero''
          else
            (case cache_result cfg st t1 key
                    (success_response query page per_page
                       (search_hits_of E so query scored_chunks) t0 t1) of
               Inl e \<Rightarrow> Inl e
             | Inr st' \<Rightarrow>
                 Inr (success_response query page per_page
                        (search_hits_of E so query scored_chunks) t0 t1, st')))"

definition opts_or_empty :: "opts option \<Rightarrow> opts" where
  "opts_or_empty opt = (case opt of None \<Rightarrow> no_opts | Some v \<Rightarrow> v)"

definition cache_key_of ::
  "search_config \<Rightarrow> string \<Rightarrow> int option \<Rightarrow> int \<Rightarrow> int \<Rightarrow> opts option \<Rightarrow> cache_key" where
  "cache_key_of cfg query k page per_page opt =
     (query, k_or_default cfg k, page, per_page, opts_or_empty opt)"

text \<open>\<open>if cached_result:\<close> holds for a response that is there and is not the empty dict.\<close>

definition is_hit :: "response option \<Rightarrow> bool" where
  "is_hit r = (case r of None \<Rightarrow> False | Some cached \<Rightarrow> cached \<noteq> [])"

text \<open>The \<open>try\<close> block of a call, entered after a cache miss at time \<open>t0\<close>.\<close>

definition try_block ::
  "search_config \<Rightarrow> env \<Rightarrow> api_state \<Rightarrow> real \<Rightarrow> real \<Rightarrow> string + scored_chunk list
     \<Rightarrow> string \<Rightarrow> int option \<Rightarrow> int \<Rightarrow> int \<Rightarrow> opts option
     \<Rightarrow> string + response \<times> api_state" where
  "try_block cfg E st t0 t1 outcome query k page per_page opt =
     run_body cfg E (snd (get_cached_result st t0 (cache_key_of cfg query k page per_page opt)))
       t0 t1 outcome query page per_page (search_options_of cfg (opts_or_empty opt))
       (cache_key_of cfg query k page per_page opt)"

text \<open>
  \<open>SearchAPI.run\<close> with the retriever's part given as \<open>outcome\<close>. \<open>t0\<close> is the clock when the
  call starts, \<open>t1\<close> when it builds its response. A cache hit marks the stored response
  (the same dict) and returns it.
\<close>

definition run_core ::
  "search_config \<Rightarrow> env \<Rightarrow> api_state \<Rightarrow> real \<Rightarrow> real \<Rightarrow> string + scored_chunk list
     \<Rightarrow> string \<Rightarrow> int option \<Rightarrow> int \<Rightarrow> int \<Rightarrow> opts option \<Rightarrow> response \<times> api_state" where
  "run_core cfg E st t0 t1 outcome query k page per_page opt =
     (let key = cache_key_of cfg query k page per_page opt;
          looked = get_cached_result st t0 key
      in if is_hit (fst looked) then
           (dict_set ''cache_hit'' (VBool True) (the (fst looked)),
            (snd looked)\<lparr>cache := dict_set key
                (dict_set ''cache_hit'' (VBool True) (the (fst looked)),
                 snd (the (map_of (cache (snd looked)) key)))
                (cache (snd looked))\<rparr>)
         else
           (case try_block cfg E st t0 t1 outcome query k page per_page opt of
              Inr rs \<Rightarrow> rs
            | Inl e \<Rightarrow> (error_response query page per_page e t0 t1, snd looked)))"

text \<open>\<open>SearchAPI.run\<close> on the hybrid retriever of this package.\<close>

definition run ::
  "search_config \<Rightarrow> env \<Rightarrow> catalog \<Rightarrow> retrieval \<Rightarrow> api_state \<Rightarrow> real \<Rightarrow> real
     \<Rightarrow> string \<Rightarrow> int option \<Rightarrow> int \<Rightarrow> int \<Rightarrow> opts option \<Rightarrow> response \<times> api_state" where
  "run cfg E cat R st t0 t1 query k page per_page opt =
     run_core cfg E st t0 t1 (search cfg cat R query (Some (k_or_default cfg k)))
       query k page per_page opt"

text \<open>The fields every response carries.\<close>

definition response_fields :: "string list" where
  "response_fields = [''query'', ''total_hits'', ''page'', ''per_page'', ''total_pages'',
     ''has_next'', ''has_prev'', ''items'', ''search_time'', ''cache_hit'', ''timestamp'']"

definition has_fields :: "response \<Rightarrow> bool" where
  "has_fields resp = list_all (\<lambda>f. map_of resp f \<noteq> None) response_fields"

text \<open>
  The pagination fields of a response to a request for page \<open>page\<close> of \<open>per_page\<close> hits:
  with \<open>T\<close> its \<open>total_hits\<close>, \<open>total_pages\<close> is \<open>T / per_page\<close> rounded up, \<open>has_next\<close> says
  that \<open>page\<close> is below it and \<open>has_prev\<close> that \<open>page\<close> is above \<open>1\<close>.
\<close>

definition paginated :: "int \<Rightarrow> int \<Rightarrow> response \<Rightarrow> bool" where
  "paginated page per_page resp =
     (case map_of resp ''total_hits'' of
        Some (VInt T) \<Rightarrow>
          map_of resp ''page'' = Some (VInt page)
          \<and> map_of resp ''per_page'' = Some (VInt per_page)
          \<and> map_of resp ''total_pages''
              = Some (VInt \<lceil>real_of_int T / real_of_int per_page\<rceil>)
          \<and> map_of resp ''has_next''
              = Some (VBool (page < \<lceil>real_of_int T / real_of_int per_page\<rceil>))
          \<and> map_of resp ''has_prev'' = Some (VBool (page > 1))
      | _ \<Rightarrow> False)"

text \<open>
  A response holds page \<open>page\<close> of the hits \<open>hits\<close> at \<open>per_page\<close> per page: its
  \<open>total_hits\<close> is their number and its \<open>items\<close> is their slice from
  \<open>(page - 1) * per_page\<close> to \<open>page * per_page\<close>.
\<close>

definition page_of_hits :: "search_hit list \<Rightarrow> int \<Rightarrow> int \<Rightarrow> response \<Rightarrow> bool" where
  "page_of_hits hits page per_page resp =
     (map_of resp ''total_hits'' = Some (VInt (int (length hits)))
      \<and> map_of resp ''items''
          = Some (VItems (py_slice hits ((page - 1) * per_page) (page * per_page))))"

text \<open>
  The cache of a running \<open>SearchAPI\<close> holds only responses that \<open>run\<close> built: each has all
  fields and no \<open>error\<close>, it holds the page of its key out of the ranked hits of a
  retriever result for the query and the options of its key and, when its key asks for at
  least one hit per page, it has the pagination fields of its key.
\<close>

definition entry_ok :: "search_config \<Rightarrow> env \<Rightarrow> cache_key \<times> response \<times> real \<Rightarrow> bool" where
  "entry_ok cfg E e =
     (case e of
        ((query, k, page, per_page, ops), resp, ts) \<Rightarrow>
          has_fields resp
          \<and> map_of resp ''error'' = None
          \<and> (\<exists>scored_chunks.
                page_of_hits (search_hits_of E (search_options_of cfg ops) query scored_chunks)
                  page per_page resp)
          \<and> (per_page < 1 \<or> paginated page per_page resp))"

definition cache_ok :: "search_config \<Rightarrow> env \<Rightarrow> api_state \<Rightarrow> bool" where
  "cache_ok cfg E st = list_all (entry_ok cfg E) (cache st)"

section \<open>Indexer (indexer.py)\<close>

text \<open>
  The file system as the indexer sees it through \<open>pathlib\<close>: a path is absent or names a
  node with its \<open>stat\<close> fields, its bytes (a file) and its entries in \<open>iterdir\<close> order (a
  directory). File contents are taken to be valid UTF-8, so that decoding with
  \<open>errors='ignore'\<close> drops nothing and \<open>text.encode()\<close> gives the bytes of the text back.
\<close>

datatype node_kind = RegularFile | Directory | OtherNode

record fnode =
  n_kind :: node_kind
  n_dev :: int
  n_ino :: int
  n_mtime :: int
  n_size :: int
  n_content :: string
  n_children :: "string list"

type_synonym filesystem = "string \<Rightarrow> fnode option"

definition file_name :: "string \<Rightarrow> string" where
  "file_name path = rev (takeWhile (\<lambda>c. c \<noteq> CHR ''/'') (rev path))"

text \<open>\<open>Path(path).suffix\<close>: from the last dot of the name, unless the name starts or ends there.\<close>

definition path_suffix :: "string \<Rightarrow> string" where
  "path_suffix path =
     (if 0 < str_rfind (file_name path) ''.''
         \<and> str_rfind (file_name path) ''.'' < int (length (file_name path)) - 1
      then drop (nat (str_rfind (file_name path) ''.'')) (file_name path) else [])"

definition child_path :: "string \<Rightarrow> string \<Rightarrow> string" where
  "child_path dir_path name = dir_path @ ''/'' @ name"

definition should_exclude :: "env \<Rightarrow> index_config \<Rightarrow> string \<Rightarrow> bool" where
  "should_exclude E cfg path = list_ex (\<lambda>pattern. fnmatch E path pattern) (exclude_patterns cfg)"

definition get_file_stats :: "filesystem \<Rightarrow> string \<Rightarrow> (int \<times> int) option" where
  "get_file_stats fs path = (case fs path of None \<Rightarrow> None | Some n \<Rightarrow> Some (n_size n, n_mtime n))"

text \<open>\<open>generate_file_sha256\<close>: the SHA-256 of the file's bytes, \<open>None\<close> when it cannot be read.\<close>

definition generate_file_sha256 :: "env \<Rightarrow> filesystem \<Rightarrow> string \<Rightarrow> string option" where
  "generate_file_sha256 E fs path =
     (case fs path of
        None \<Rightarrow> None
      | Some n \<Rightarrow> if n_kind n = RegularFile then Some (sha256_hex E (n_content n)) else None)"

text \<open>Reading in text mode translates \<open>\r\n\<close> and \<open>\r\<close> to \<open>\n\<close> (universal newlines).\<close>

fun universal_newlines :: "string \<Rightarrow> string" where
  "universal_newlines [] = []"
| "universal_newlines [c] = (if c = CHR 0x0D then [CHR 0x0A] else [c])"
| "universal_newlines (c # d # cs) =
     (if c = CHR 0x0D \<and> d = CHR 0x0A then CHR 0x0A # universal_newlines cs
      else if c = CHR 0x0D then CHR 0x0A # universal_newlines (d # cs)
      else c # universal_newlines (d # cs))"

definition extract_txt :: "filesystem \<Rightarrow> string \<Rightarrow> string option" where
  "extract_txt fs path =
     (case fs path of
        None \<Rightarrow> None
      | Some n \<Rightarrow> if n_kind n = RegularFile then Some (universal_newlines (n_content n))
                  else None)"

definition extract_with ::
  "(string \<Rightarrow> string option) \<Rightarrow> filesystem \<Rightarrow> string \<Rightarrow> string option" where
  "extract_with extractor fs path =
     (case fs path of
        None \<Rightarrow> None
      | Some n \<Rightarrow> if n_kind n = RegularFile then extractor (n_content n) else None)"

text \<open>\<open>_extract_text\<close>: \<open>None\<close> also stands for an extractor that raised.\<close>

definition extract_text :: "env \<Rightarrow> filesystem \<Rightarrow> string \<Rightarrow> string option" where
  "extract_text E fs path =
     (if lower (path_suffix path) = ''.txt'' then extract_txt fs path
      else if lower (path_suffix path) = ''.md'' then extract_txt fs path
      else if lower (path_suffix path) = ''.pdf'' then extract_with (extract_pdf E) fs path
      else if lower (path_suffix path) \<in> set [''.html'', ''.htm'']
      then extract_with (extract_html E) fs path
      else if lower (path_suffix path) \<in> set [''.docx'', ''.doc'']
      then extract_with (extract_docx E) fs path
      else extract_txt fs path)"

definition get_existing_sha256 :: "catalog \<Rightarrow> string \<Rightarrow> string option" where
  "get_existing_sha256 cat fid = map_option f_sha256 (files cat fid)"

definition chunk_row_of :: "string \<Rightarrow> chunk \<Rightarrow> chunk_row" where
  "chunk_row_of fid c =
     \<lparr>r_chunk_id = c_chunk_id c, r_file_id = fid, r_idx = c_idx c,
      r_token_start = c_token_start c, r_token_end = c_token_end c\<rparr>"

definition insert_chunks :: "catalog \<Rightarrow> string \<Rightarrow> chunk list \<Rightarrow> catalog" where
  "insert_chunks cat fid cs =
     cat\<lparr>chunks := filter (\<lambda>r. r_file_id r \<noteq> fid) (chunks cat) @ map (chunk_row_of fid) cs\<rparr>"

definition fts_insert :: "catalog \<Rightarrow> string \<Rightarrow> string \<Rightarrow> string \<Rightarrow> catalog" where
  "fts_insert cat cid txt path = cat\<lparr>chunks_fts := (chunks_fts cat)(cid \<mapsto> (txt, path))\<rparr>"

text \<open>
  The vector store is seen through the points the indexer sends it: \<open>ix_points\<close> is the
  sequence of upserted points. The batching of \<open>embed_batch\<close> and \<open>upsert_batch\<close> is not
  modelled; an embedder or a store that is not there sends nothing.
\<close>

record point =
  p_id :: string
  p_vector :: vec
  p_path :: string
  p_file_id :: string
  p_chunk_id :: string
  p_idx :: int

definition point_of :: "chunk \<times> vec \<Rightarrow> point" where
  "point_of ce =
     \<lparr>p_id = c_chunk_id (fst ce), p_vector = snd ce, p_path = c_path (fst ce),
      p_file_id = c_file_id (fst ce), p_chunk_id = c_chunk_id (fst ce), p_idx = c_idx (fst ce)\<rparr>"

definition embed_and_upsert :: "env \<Rightarrow> chunk list \<Rightarrow> point list \<Rightarrow> point list" where
  "embed_and_upsert E cs sent =
     (case embed E (map c_text cs) of
        None \<Rightarrow> sent
      | Some embeddings \<Rightarrow>
          if qdrant_up E then sent @ map point_of (zip cs embeddings) else sent)"

record index_stats =
  files_processed :: int
  chunks_created :: int
  files_skipped :: int
  stats_errors :: int

definition zero_stats :: index_stats where
  "zero_stats = \<lparr>files_processed = 0, chunks_created = 0, files_skipped = 0, stats_errors = 0\<rparr>"

record indexer =
  ix_catalog :: catalog
  ix_points :: "point list"
  ix_stats :: index_stats

definition skip_file :: "indexer \<Rightarrow> indexer" where
  "skip_file ix = ix\<lparr>ix_stats := (ix_stats ix)\<lparr>files_skipped := files_skipped (ix_stats ix) + 1\<rparr>\<rparr>"

text \<open>
  The tail of \<open>_process_file\<close>, from the upsert of the file row on: the file row, the chunk
  rows, the vectors, the full-text rows and the counter.
\<close>

definition persist_file ::
  "env \<Rightarrow> string \<Rightarrow> int \<Rightarrow> int \<Rightarrow> string \<Rightarrow> string \<Rightarrow> chunk list \<Rightarrow> indexer \<Rightarrow> indexer" where
  "persist_file E file_path sz mtime fid new_sha256 cs ix =
     ix\<lparr>ix_catalog :=
          fold (\<lambda>c cat. fts_insert cat (c_chunk_id c) (c_text c) (c_path c)) cs
            (insert_chunks (snd (upsert_file E (ix_catalog ix) file_path sz mtime new_sha256))
               fid cs),
        ix_points := embed_and_upsert E cs (ix_points ix),
        ix_stats := (ix_stats ix)\<lparr>chunks_created :=
          chunks_created (ix_stats ix) + int (length cs)\<rparr>\<rparr>"

text \<open>
  \<open>_process_file\<close> when it does not raise. The result \<open>None\<close> is a chunker that never
  returns; \<open>Some\<close> is the indexer after the call.
\<close>

definition process_file ::
  "env \<Rightarrow> index_config \<Rightarrow> filesystem \<Rightarrow> string \<Rightarrow> indexer \<Rightarrow> indexer option" where
  "process_file E cfg fs file_path ix =
     (if lower (path_suffix file_path) \<notin> set (allow_exts cfg) then Some (skip_file ix)
      else if should_exclude E cfg file_path then Some (skip_file ix)
      else
        (case get_file_stats fs file_path of
           None \<Rightarrow> Some ix
         | Some stats \<Rightarrow>
            if (case get_existing_sha256 (ix_catalog ix)
                       (file_id E file_path (snd stats) (fst stats)) of
                  None \<Rightarrow> False
                | Some existing_sha256 \<Rightarrow>
                    existing_sha256 \<noteq> []
                    \<and> generate_file_sha256 E fs file_path = Some existing_sha256)
            then Some (skip_file ix)
            else
              (case extract_text E fs file_path of
                 None \<Rightarrow> Some (skip_file ix)
               | Some txt \<Rightarrow>
                  if txt = [] then Some (skip_file ix)
                  else
                    (case chunk_text E cfg txt file_path
                            (file_id E file_path (snd stats) (fst stats)) (snd stats) of
                       None \<Rightarrow> None
                     | Some cs \<Rightarrow>
                         Some (persist_file E file_path (fst stats) (snd stats)
                                 (file_id E file_path (snd stats) (fst stats))
                                 (sha256_hex E txt) cs ix)))))"

text \<open>
  The exception \<open>_process_file\<close> raises, if any. \<open>file_id\<close> raises when the string it
  hashes cannot be encoded, before the catalog is consulted. \<open>Catalog.upsert_file\<close>, the
  first write of the call, raises its storage error again: the call gets there when none
  of its early returns is taken. Either way the call leaves before anything is written or
  counted and before the chunker runs. (The file system of the model does not change during
  a call, so the \<open>stat\<close> of \<open>_chunk_text\<close> finds the file that \<open>get_file_stats\<close> found.)
\<close>

definition process_file_raises ::
  "env \<Rightarrow> index_config \<Rightarrow> filesystem \<Rightarrow> string \<Rightarrow> indexer \<Rightarrow> string option" where
  "process_file_raises E cfg fs file_path ix =
     (if lower (path_suffix file_path) \<notin> set (allow_exts cfg) then None
      else if should_exclude E cfg file_path then None
      else
        (case get_file_stats fs file_path of
           None \<Rightarrow> None
         | Some stats \<Rightarrow>
            (case encode_error E
                    (file_path @ ''|'' @ str_int (snd stats) @ ''|'' @ str_int (fst stats)) of
               Some e \<Rightarrow> Some e
             | None \<Rightarrow>
                if (case get_existing_sha256 (ix_catalog ix)
                           (file_id E file_path (snd stats) (fst stats)) of
                      None \<Rightarrow> False
                    | Some existing_sha256 \<Rightarrow>
                        existing_sha256 \<noteq> []
                        \<and> generate_file_sha256 E fs file_path = Some existing_sha256)
                then None
                else
                  (case extract_text E fs file_path of
                     None \<Rightarrow> None
                   | Some txt \<Rightarrow> if txt = [] then None else storage_error E file_path))))"

section \<open>Frontier (indexer.py)\<close>

record frontier_state =
  queue :: "string list"
  seen :: "string \<rightharpoonup> (int \<times> int)"
  processed_files :: int
  processed_dirs :: int
  errors :: "string list"

definition empty_frontier :: frontier_state where
  "empty_frontier = \<lparr>queue = [], seen = Map.empty, processed_files = 0, processed_dirs = 0,
     errors = []\<rparr>"

text \<open>\<open>_process_directory\<close>: the children that are neither hidden nor excluded join the queue.\<close>

definition process_directory ::
  "env \<Rightarrow> index_config \<Rightarrow> filesystem \<Rightarrow> string \<Rightarrow> frontier_state \<Rightarrow> frontier_state" where
  "process_directory E cfg fs dir_path frontier =
     (if should_exclude E cfg dir_path then frontier
      else
        (case fs dir_path of
           None \<Rightarrow> frontier
         | Some n \<Rightarrow>
             frontier\<lparr>queue := queue frontier @
               map (child_path dir_path)
                 (filter (\<lambda>name. \<not> startswith name ''.''
                                 \<and> \<not> should_exclude E cfg (child_path dir_path name))
                    (n_children n))\<rparr>))"

text \<open>
  \<open>_process_item\<close> on the frontier and the indexer. \<open>None\<close> is a call that never returns,
  \<open>Inl e\<close> one that leaves with the exception \<open>e\<close> of \<open>_process_file\<close>, \<open>Inr\<close> one that
  returns. A path that is gone, or that is in \<open>seen\<close> with its present \<open>(device, inode)\<close>,
  is left alone; any other path is processed and, when that has not raised, marked as
  seen.
\<close>

definition process_item ::
  "env \<Rightarrow> index_config \<Rightarrow> filesystem \<Rightarrow> string \<Rightarrow> frontier_state \<times> indexer
     \<Rightarrow> (string + frontier_state \<times> indexer) option" where
  "process_item E cfg fs item_path s =
     (case fs item_path of
        None \<Rightarrow> Some (Inr s)
      | Some n \<Rightarrow>
          if seen (fst s) item_path = Some (n_dev n, n_ino n) then Some (Inr s)
          else if n_kind n = RegularFile then
            (case process_file_raises E cfg fs item_path (snd s) of
               Some e \<Rightarrow> Some (Inl e)
             | None \<Rightarrow>
                (case process_file E cfg fs item_path (snd s) of
                   None \<Rightarrow> None
                 | Some ix \<Rightarrow>
                     Some (Inr ((fst s)\<lparr>processed_files := processed_files (fst s) + 1,
                                  seen := (seen (fst s))(item_path \<mapsto> (n_dev n, n_ino n))\<rparr>,
                                ix\<lparr>ix_stats := (ix_stats ix)\<lparr>files_processed :=
                                     files_processed (ix_stats ix) + 1\<rparr>\<rparr>))))
          else if n_kind n = Directory then
            Some (Inr ((process_directory E cfg fs item_path (fst s))
                         \<lparr>processed_dirs := processed_dirs (fst s) + 1,
                          seen := (seen (fst s))(item_path \<mapsto> (n_dev n, n_ino n))\<rparr>,
                       snd s))
          else Some (Inr ((fst s)\<lparr>seen :=
                            (seen (fst s))(item_path \<mapsto> (n_dev n, n_ino n))\<rparr>, snd s)))"

text \<open>
  The \<open>except\<close> branch of the loop of \<open>run_bfs_slice\<close>: the error joins the frontier's
  list as \<open>path: message\<close> and the indexer counts it.
\<close>

definition record_error ::
  "string \<Rightarrow> string \<Rightarrow> frontier_state \<times> indexer \<Rightarrow> frontier_state \<times> indexer" where
  "record_error item_path e s =
     ((fst s)\<lparr>errors := errors (fst s) @ [item_path @ '': '' @ e]\<rparr>,
      (snd s)\<lparr>ix_stats := (ix_stats (snd s))\<lparr>stats_errors :=
                  stats_errors (ix_stats (snd s)) + 1\<rparr>\<rparr>)"

text \<open>The loop over the paths taken off the queue, each in its \<open>try\<close>.\<close>

fun process_items ::
  "env \<Rightarrow> index_config \<Rightarrow> filesystem \<Rightarrow> string list \<Rightarrow> frontier_state \<times> indexer
     \<Rightarrow> (frontier_state \<times> indexer) option" where
  "process_items E cfg fs [] s = Some s"
| "process_items E cfg fs (item_path # rest) s =
     (case process_item E cfg fs item_path s of
        None \<Rightarrow> None
      | Some (Inl e) \<Rightarrow> process_items E cfg fs rest (record_error item_path e s)
      | Some (Inr s') \<Rightarrow> process_items E cfg fs rest s')"

definition load_frontier :: "frontier_state option \<Rightarrow> frontier_state" where
  "load_frontier saved = (case saved of None \<Rightarrow> empty_frontier | Some f \<Rightarrow> f)"

text \<open>Seeding: on an empty queue every root that exists is enqueued.\<close>

definition seed_roots :: "filesystem \<Rightarrow> string list \<Rightarrow> frontier_state \<Rightarrow> frontier_state" where
  "seed_roots fs roots frontier =
     (if queue frontier = [] then frontier\<lparr>queue := filter (\<lambda>root. fs root \<noteq> None) roots\<rparr>
      else frontier)"

definition max_items_or_default :: "index_config \<Rightarrow> int option \<Rightarrow> int" where
  "max_items_or_default cfg max_items =
     (case max_items of
        None \<Rightarrow> default_max_items cfg
      | Some n \<Rightarrow> if n = 0 then default_max_items cfg else n)"

text \<open>
  \<open>run_bfs_slice\<close>: load the saved frontier, seed it, take up to \<open>max_items\<close> paths off the
  front of the queue, process them in order, and save. The result is the saved frontier
  and the indexer.
\<close>

definition run_bfs_slice ::
  "env \<Rightarrow> index_config \<Rightarrow> filesystem \<Rightarrow> string list \<Rightarrow> int option
     \<Rightarrow> frontier_state option \<times> indexer \<Rightarrow> (frontier_state option \<times> indexer) option" where
  "run_bfs_slice E cfg fs roots max_items s =
     (let frontier = seed_roots fs roots (load_frontier (fst s));
          n = min (length (queue frontier)) (nat (max_items_or_default cfg max_items))
      in case process_items E cfg fs (take n (queue frontier))
                (frontier\<lparr>queue := drop n (queue frontier)\<rparr>, snd s) of
           None \<Rightarrow> None
         | Some s' \<Rightarrow> Some (Some (fst s'), snd s'))"

text \<open>
  \<open>run_complete_index\<close>: a new indexer (counters at zero) on the given catalog and vector
  store, the saved frontier removed, then slices until the saved queue is empty. The loop
  has no bound of its own; the model gives it \<open>fuel\<close> slices and returns \<open>None\<close> when they
  do not suffice. The total adds up the indexer's own counters after every slice, as the
  code does.
\<close>

definition add_stats :: "index_stats \<Rightarrow> index_stats \<Rightarrow> index_stats" where
  "add_stats total_stats slice_stats =
     \<lparr>files_processed = files_processed total_stats + files_processed slice_stats,
      chunks_created = chunks_created total_stats + chunks_created slice_stats,
      files_skipped = files_skipped total_stats + files_skipped slice_stats,
      stats_errors = stats_errors total_stats + stats_errors slice_stats\<rparr>"

primrec complete_loop ::
  "nat \<Rightarrow> env \<Rightarrow> index_config \<Rightarrow> filesystem \<Rightarrow> string list \<Rightarrow> int option
     \<Rightarrow> frontier_state option \<times> indexer \<Rightarrow> index_stats \<Rightarrow> (index_stats \<times> indexer) option" where
  "complete_loop 0 E cfg fs roots max_items s total_stats = None"
| "complete_loop (Suc fuel) E cfg fs roots max_items s total_stats =
     (case run_bfs_slice E cfg fs roots max_items s of
        None \<Rightarrow> None
      | Some s' \<Rightarrow>
          if queue (load_frontier (fst s')) = []
          then Some (add_stats total_stats (ix_stats (snd s')), snd s')
          else complete_loop fuel E cfg fs roots max_items s'
                 (add_stats total_stats (ix_stats (snd s'))))"

definition run_complete_index ::
  "nat \<Rightarrow> env \<Rightarrow> index_config \<Rightarrow> filesystem \<Rightarrow> string list \<Rightarrow> int option
     \<Rightarrow> catalog \<Rightarrow> point list \<Rightarrow> (index_stats \<times> indexer) option" where
  "run_complete_index fuel E cfg fs roots max_items_per_slice cat sent =
     complete_loop fuel E cfg fs roots max_items_per_slice
       (None, \<lparr>ix_catalog = cat, ix_points = sent, ix_stats = zero_stats\<rparr>) zero_stats"


section \<open>Example inputs\<close>

text \<open>
  A small environment for the concrete evaluations below: identity functions stand for
  the hash functions (so distinct inputs have distinct digests), no pattern is excluded,
  no embedder is installed, every string can be encoded and the catalog accepts every
  write.
\<close>

definition ex_env :: env where
  "ex_env = \<lparr>sha1_hex = (\<lambda>s. s), sha256_hex = (\<lambda>s. s), uuid5_dns = (\<lambda>s. s),
     fnmatch = (\<lambda>p q. False), extract_pdf = (\<lambda>b. None), extract_html = (\<lambda>b. None),
     extract_docx = (\<lambda>b. None), embed = (\<lambda>ts. None), qdrant_up = False,
     re_highlight = (\<lambda>ws s. s), encode_error = (\<lambda>s. None),
     storage_error = (\<lambda>p. None)\<rparr>"

definition ex_index_config :: index_config where
  "ex_index_config = \<lparr>max_tokens = 4, overlap = 3, allow_exts = [''.txt'', ''.md''],
     exclude_patterns = [], default_max_items = 1000\<rparr>"

text \<open>A configuration that \<open>overlap < max_tokens\<close> admits: a negative window size.\<close>

definition ex_negative_config :: index_config where
  "ex_negative_config = \<lparr>max_tokens = - 1, overlap = - 3, allow_exts = [''.txt'', ''.md''],
     exclude_patterns = [], default_max_items = 1000\<rparr>"

text \<open>The \<open>(idx, token_start, token_end)\<close> of the chunks the chunker returns.\<close>

definition chunk_windows :: "chunk list option \<Rightarrow> (int \<times> int \<times> int) list" where
  "chunk_windows r =
     (case r of
        None \<Rightarrow> []
      | Some cs \<Rightarrow> map (\<lambda>c. (c_idx c, c_token_start c, c_token_end c)) cs)"

definition ex_search_config :: search_config where
  "ex_search_config = \<lparr>top_k = 50, lex_k = 200, vec_k = 300, merge_k = 400,
     timeout_sec = 5 / 2, bm25_weight = 55 / 100, cosine_weight = 45 / 100,
     exact_boost = 20 / 100, early_pos_boost = 10 / 100, cache_size = 128,
     snippet_radius = 50, max_results_per_file = 1\<rparr>"

text \<open>
  A catalog with two files: chunks \<open>A\<close> and \<open>B\<close> belong to the first, chunk \<open>C\<close> to the
  second.
\<close>

definition ex_catalog :: catalog where
  "ex_catalog =
     \<lparr>files = [''f1'' \<mapsto> \<lparr>f_path = ''/r/a.txt'', f_size = 30, f_mtime = 7, f_sha256 = ''s1''\<rparr>,
               ''f2'' \<mapsto> \<lparr>f_path = ''/r/b.txt'', f_size = 10, f_mtime = 7, f_sha256 = ''s2''\<rparr>],
      chunks =
        [\<lparr>r_chunk_id = ''A'', r_file_id = ''f1'', r_idx = 0, r_token_start = 0, r_token_end = 2\<rparr>,
         \<lparr>r_chunk_id = ''B'', r_file_id = ''f1'', r_idx = 1, r_token_start = 1, r_token_end = 3\<rparr>,
         \<lparr>r_chunk_id = ''C'', r_file_id = ''f2'', r_idx = 0, r_token_start = 0, r_token_end = 2\<rparr>],
      chunks_fts = [''A'' \<mapsto> (''alpha beta'', ''/r/a.txt''),
                    ''B'' \<mapsto> (''beta gamma'', ''/r/a.txt''),
                    ''C'' \<mapsto> (''delta epsilon'', ''/r/b.txt'')]\<rparr>"

definition ranking :: "string + scored_chunk list \<Rightarrow> (string \<times> real) list" where
  "ranking r = (case r of Inl e \<Rightarrow> [] | Inr scs \<Rightarrow> map (\<lambda>sc. (sc_chunk_id sc, sc_score sc)) scs)"

definition breakdowns ::
  "string + scored_chunk list \<Rightarrow> (string \<times> real \<times> real \<times> real \<times> real \<times> real) list" where
  "breakdowns r =
     (case r of
        Inl e \<Rightarrow> []
      | Inr scs \<Rightarrow>
          map (\<lambda>sc. (sc_chunk_id sc, bm25 (sc_breakdown sc), cosine (sc_breakdown sc),
                     exact (sc_breakdown sc), position_bonus (sc_breakdown sc),
                     final (sc_breakdown sc))) scs)"

definition empty_api :: api_state where
  "empty_api = \<lparr>cache = []\<rparr>"

definition ex_chunk :: "string \<Rightarrow> string \<Rightarrow> string \<Rightarrow> real \<Rightarrow> scored_chunk" where
  "ex_chunk cid fid path s =
     \<lparr>sc_chunk_id = cid, sc_file_id = fid, sc_path = path, sc_text = ''Content of file'',
      sc_score = s,
      sc_breakdown = \<lparr>cosine = 0, bm25 = 0, exact = 0, position_bonus = 0, final = s\<rparr>,
      sc_chunk_idx = 0\<rparr>"

definition ex_chunks :: "scored_chunk list" where
  "ex_chunks =
     [ex_chunk ''c0'' ''f0'' ''/test/file0.txt'' 1,
      ex_chunk ''c1'' ''f1'' ''/test/file1.txt'' 0.9,
      ex_chunk ''c2'' ''f2'' ''/test/file2.txt'' 0.8,
      ex_chunk ''c3'' ''f3'' ''/test/file3.txt'' 0.7,
      ex_chunk ''c4'' ''f4'' ''/test/file4.txt'' 0.6]"

definition ex_opts_plain :: opts where
  "ex_opts_plain = no_opts\<lparr>o_include_snippets := Some False\<rparr>"

definition items_of :: "response \<Rightarrow> string list" where
  "items_of resp =
     (case map_of resp ''items'' of Some (VItems hs) \<Rightarrow> map h_chunk_id hs | _ \<Rightarrow> [])"

text \<open>
  Page three of the five example chunks at two per page, as \<open>run\<close> builds it at time \<open>1\<close>
  for the query \<open>test\<close>, and the cache that holds it.
\<close>

definition ex_page3 :: response where
  "ex_page3 =
     [(''query'', VStr ''test''), (''total_hits'', VInt 5), (''page'', VInt 3),
      (''per_page'', VInt 2), (''total_pages'', VInt 3),
      (''has_next'', VBool False), (''has_prev'', VBool True),
      (''items'',
       VItems
        [\<lparr>h_path = ''/test/file4.txt'', h_score = 3 / 5,
           h_breakdown = \<lparr>cosine = 0, bm25 = 0, exact = 0, position_bonus = 0,
                           final = 3 / 5\<rparr>,
           h_file_type = ''text'', h_chunk_id = ''c4'', h_snippet = [],
           h_context_range = (0, 0), h_file_id = ''f4'', h_chunk_idx = 0\<rparr>]),
      (''search_time'', VReal 1), (''cache_hit'', VBool False),
      (''timestamp'', VInt 1)]"

definition ex_api_page3 :: api_state where
  "ex_api_page3 = \<lparr>cache = [((''test'', 10, 3, 2, ex_opts_plain), ex_page3, 1)]\<rparr>"

text \<open>
  A retrieval for the example catalog: the vector store returns chunks \<open>A\<close> and \<open>B\<close> (both
  of file \<open>f1\<close>), the full-text search \<open>B\<close> and \<open>C\<close>.
\<close>

definition ex_retrieval :: retrieval where
  "ex_retrieval = \<lparr>query_embedding = Some [1, 0], vector_hits = Some [(''A'', 0.9), (''B'', 0.6)],
     fts_rows = Some [(''B'', 10), (''C'', 5)]\<rparr>"

text \<open>
  A retrieval in which everything is down: the embedder gives no query embedding, the
  vector store and the full-text search fail.
\<close>

definition ex_retrieval_down :: retrieval where
  "ex_retrieval_down = \<lparr>query_embedding = None, vector_hits = None, fts_rows = None\<rparr>"

definition ex_opts_two_per_file :: opts where
  "ex_opts_two_per_file =
     no_opts\<lparr>o_max_results_per_file := Some 2, o_include_snippets := Some False\<rparr>"

definition hit_files :: "response \<Rightarrow> (string \<times> string) list" where
  "hit_files resp =
     (case map_of resp ''items'' of
        Some (VItems hs) \<Rightarrow> map (\<lambda>h. (h_chunk_id h, h_file_id h)) hs
      | _ \<Rightarrow> [])"

text \<open>
  An environment with an embedder and a vector store, and a directory \<open>/docs\<close> with two
  text files: \<open>notes.txt\<close> has a Windows line end, \<open>plain.txt\<close> has a Unix one.
\<close>

definition ex_env_embed :: env where
  "ex_env_embed = ex_env\<lparr>embed := (\<lambda>ts. Some (map (\<lambda>t. [1, 0]) ts)), qdrant_up := True\<rparr>"

definition ex_default_index_config :: index_config where
  "ex_default_index_config = \<lparr>max_tokens = 1200, overlap = 80,
     allow_exts = [''.txt'', ''.md'', ''.pdf'', ''.docx'', ''.html'', ''.htm'', ''.rtf''],
     exclude_patterns = [], default_max_items = 1000\<rparr>"

definition ex_file :: "int \<Rightarrow> string \<Rightarrow> fnode" where
  "ex_file ino content =
     \<lparr>n_kind = RegularFile, n_dev = 1, n_ino = ino, n_mtime = 42,
      n_size = int (length content), n_content = content, n_children = []\<rparr>"

definition ex_dir :: "int \<Rightarrow> string list \<Rightarrow> fnode" where
  "ex_dir ino names =
     \<lparr>n_kind = Directory, n_dev = 1, n_ino = ino, n_mtime = 42,
      n_size = 4096, n_content = [], n_children = names\<rparr>"

definition crlf_text :: string where
  "crlf_text = ''alpha beta'' @ [CHR 0x0D, CHR 0x0A] @ ''gamma''"

definition lf_text :: string where
  "lf_text = ''alpha beta'' @ [CHR 0x0A] @ ''gamma''"

definition ex_fs_crlf :: filesystem where
  "ex_fs_crlf path =
     (if path = ''/docs'' then Some (ex_dir 10 [''notes.txt''])
      else if path = ''/docs/notes.txt'' then Some (ex_file 11 crlf_text)
      else None)"

definition ex_fs_lf :: filesystem where
  "ex_fs_lf path =
     (if path = ''/docs'' then Some (ex_dir 10 [''plain.txt''])
      else if path = ''/docs/plain.txt'' then Some (ex_file 12 lf_text)
      else None)"

definition empty_catalog :: catalog where
  "empty_catalog = \<lparr>files = Map.empty, chunks = [], chunks_fts = Map.empty\<rparr>"

text \<open>What a run reports: chunks created, files skipped, and the points sent so far.\<close>

definition run_report :: "(index_stats \<times> indexer) option \<Rightarrow> (int \<times> int \<times> nat) option" where
  "run_report r =
     map_option (\<lambda>x. (chunks_created (fst x), files_skipped (fst x), length (ix_points (snd x)))) r"

definition index_once :: "filesystem \<Rightarrow> catalog \<Rightarrow> point list \<Rightarrow> (index_stats \<times> indexer) option" where
  "index_once fs cat sent =
     run_complete_index 5 ex_env_embed ex_default_index_config fs [''/docs''] None cat sent"

definition index_twice :: "filesystem \<Rightarrow> (index_stats \<times> indexer) option" where
  "index_twice fs =
     (case index_once fs empty_catalog [] of
        None \<Rightarrow> None
      | Some r \<Rightarrow> index_once fs (ix_catalog (snd r)) (ix_points (snd r)))"









section \<open>Facts about the string helpers\<close>

lemma split_aux_words:
  "(\<forall>c \<in> set w. \<not> is_space c) \<Longrightarrow> x \<in> set (split_aux s w)
     \<Longrightarrow> x \<noteq> [] \<and> (\<forall>c \<in> set x. \<not> is_space c)"
proof (induction s arbitrary: w)
  case Nil
  then show ?case by (simp split: if_splits)
next
  case (Cons c cs)
  show ?case
  proof (cases "is_space c")
    case True
    show ?thesis
    proof (cases "w = []")
      case True
      with \<open>is_space c\<close> Cons.prems(2) have "x \<in> set (split_aux cs [])" by simp
      then show ?thesis using Cons.IH [of "[]"] by simp
    next
      case False
      with \<open>is_space c\<close> Cons.prems(2) have "x = w \<or> x \<in> set (split_aux cs [])" by simp
      then show ?thesis using Cons.IH [of "[]"] Cons.prems(1) False by auto
    qed
  next
    case False
    with Cons.prems(2) have "x \<in> set (split_aux cs (w @ [c]))" by simp
    moreover have "\<forall>d \<in> set (w @ [c]). \<not> is_space d" using Cons.prems(1) False by simp
    ultimately show ?thesis using Cons.IH [of "w @ [c]"] by blast
  qed
qed

lemma split_words: "x \<in> set (split s) \<Longrightarrow> x \<noteq> [] \<and> (\<forall>c \<in> set x. \<not> is_space c)"
  unfolding split_def using split_aux_words [of "[]" x s] by simp

lemma join_hd:
  "ws \<noteq> [] \<Longrightarrow> hd ws \<noteq> [] \<Longrightarrow> join sep ws \<noteq> [] \<and> hd (join sep ws) = hd (hd ws)"
  by (induction sep ws rule: join.induct) auto

lemma join_last:
  "ws \<noteq> [] \<Longrightarrow> last ws \<noteq> [] \<Longrightarrow> join sep ws \<noteq> [] \<and> last (join sep ws) = last (last ws)"
  by (induction sep ws rule: join.induct) auto

lemma strip_nonempty:
  assumes "s \<noteq> []" "\<not> is_space (hd s)" "\<not> is_space (last s)"
  shows "strip s \<noteq> []"
proof -
  from assms have a: "dropWhile is_space s = s" by (cases s) auto
  from assms have "rev s \<noteq> []" "\<not> is_space (hd (rev s))" by (auto simp: hd_rev)
  then have "dropWhile is_space (rev s) = rev s" by (cases "rev s") auto
  with a assms show ?thesis by (simp add: strip_def)
qed

lemma strip_join_words:
  assumes "\<forall>x \<in> set ws. x \<noteq> [] \<and> (\<forall>c \<in> set x. \<not> is_space c)"
  shows "(strip (join '' '' ws) = []) = (ws = [])"
proof (cases "ws = []")
  case True
  then show ?thesis by (simp add: strip_def)
next
  case False
  then have h: "hd ws \<in> set ws" and l: "last ws \<in> set ws" by auto
  from h l assms have hn: "hd ws \<noteq> []" and ln: "last ws \<noteq> []" by auto
  from join_hd [OF False hn]
  have j1: "join '' '' ws \<noteq> []" "hd (join '' '' ws) = hd (hd ws)" by auto
  from join_last [OF False ln] have j2: "last (join '' '' ws) = last (last ws)" by auto
  have "\<not> is_space (hd (hd ws))" using assms h hn by (metis hd_in_set)
  moreover have "\<not> is_space (last (last ws))" using assms l ln by (metis last_in_set)
  ultimately have "strip (join '' '' ws) \<noteq> []" using strip_nonempty j1 j2 by metis
  with False show ?thesis by simp
qed

lemma py_slice_window:
  assumes "0 \<le> i" "i < int (length xs)" "0 < m"
  shows "py_slice xs i (i + m) = take (nat m) (drop (nat i) xs)"
    and "py_slice xs i (i + m) \<noteq> []"
    and "i + int (length (py_slice xs i (i + m))) = min (i + m) (int (length xs))"
    and "py_slice xs i (min (i + m) (int (length xs))) = py_slice xs i (i + m)"
  using assms by (auto simp: py_slice_def clamp_index_def min_def nat_add_distrib nat_diff_distrib)

section \<open>The chunker\<close>

lemma ceil_div_less_iff:
  fixes s n j :: int
  assumes sp: "0 < s"
  shows "(j < (n + s - 1) div s) = (j * s < n)"
proof -
  define d where "d = (n + s - 1) div s"
  define r where "r = (n + s - 1) mod s"
  have eq: "n + s - 1 = d * s + r" unfolding d_def r_def by simp
  have r0: "0 \<le> r" and r1: "r < s" unfolding r_def using sp by simp_all
  show ?thesis
  proof
    assume "j < (n + s - 1) div s"
    then have "j + 1 \<le> d" by (simp add: d_def)
    then have "(j + 1) * s \<le> d * s" using sp by (simp add: mult_right_mono)
    with eq r0 have "(j + 1) * s \<le> n + s - 1" by linarith
    then show "j * s < n" by (simp add: algebra_simps)
  next
    assume a: "j * s < n"
    show "j < (n + s - 1) div s"
    proof (rule ccontr)
      assume "\<not> j < (n + s - 1) div s"
      then have "d \<le> j" by (simp add: d_def)
      then have "d * s \<le> j * s" using sp by (simp add: mult_right_mono)
      with eq r1 a show False by linarith
    qed
  qed
qed

lemma window_count_iff:
  assumes "overlap cfg < max_tokens cfg"
  shows "(j < window_count cfg n) = (window_start cfg j < int n)"
proof -
  define s where "s = max_tokens cfg - overlap cfg"
  have sp: "0 < s" using assms by (simp add: s_def)
  have "(int j < (int n + s - 1) div s) = (int j * s < int n)"
    by (rule ceil_div_less_iff [OF sp])
  then show ?thesis
    unfolding window_count_def window_start_def s_def [symmetric] by linarith
qed

lemma chunk_loop_windows:
  assumes ov: "overlap cfg < max_tokens cfg" and mp: "0 < max_tokens cfg"
    and ws: "\<forall>x \<in> set words. x \<noteq> [] \<and> (\<forall>c \<in> set x. \<not> is_space c)"
  shows "chunk_loop E cfg file_path fid mtime words (window_start cfg j) (int j) acc =
           Some (acc @ map (window_chunk E cfg file_path fid mtime words)
                          [j..<window_count cfg (length words)])"
proof (induction "window_count cfg (length words) - j" arbitrary: j acc)
  case 0
  then have "\<not> j < window_count cfg (length words)" by simp
  then have "\<not> window_start cfg j < int (length words)"
    using window_count_iff [OF ov] by simp
  moreover have "[j..<window_count cfg (length words)] = []" using 0 by simp
  ultimately show ?case by (subst chunk_loop.simps) simp
next
  case (Suc k)
  then have jl: "j < window_count cfg (length words)" by simp
  then have lt: "window_start cfg j < int (length words)"
    using window_count_iff [OF ov] by simp
  have nn: "0 \<le> window_start cfg j" using ov by (simp add: window_start_def)
  let ?i = "window_start cfg j"
  let ?cw = "py_slice words ?i (?i + max_tokens cfg)"
  have cw_ne: "?cw \<noteq> []" by (rule py_slice_window(2) [OF nn lt mp])
  have "set ?cw \<subseteq> set words"
    unfolding py_slice_window(1) [OF nn lt mp] by (meson set_drop_subset set_take_subset subset_trans)
  then have "\<forall>x \<in> set ?cw. x \<noteq> [] \<and> (\<forall>c \<in> set x. \<not> is_space c)" using ws by blast
  then have st: "strip (join '' '' ?cw) \<noteq> []" using strip_join_words cw_ne by blast
  have mk: "make_chunk E file_path fid mtime ?cw ?i (int j)
              = window_chunk E cfg file_path fid mtime words j"
    unfolding make_chunk_def window_chunk_def window_end_def
    using py_slice_window(3,4) [OF nn lt mp] by simp
  have nxt: "?i + (max_tokens cfg - overlap cfg) = window_start cfg (Suc j)"
    by (simp add: window_start_def algebra_simps)
  have k: "k = window_count cfg (length words) - Suc j" using Suc(2) by simp
  have step: "chunk_loop E cfg file_path fid mtime words ?i (int j) acc =
      chunk_loop E cfg file_path fid mtime words (window_start cfg (Suc j)) (int j + 1)
        (acc @ [window_chunk E cfg file_path fid mtime words j])"
    by (subst chunk_loop.simps) (simp only: lt st mk nxt if_True if_False)
  have sj: "int j + 1 = int (Suc j)" by simp
  have "[j..<window_count cfg (length words)] = j # [Suc j..<window_count cfg (length words)]"
    using jl by (simp add: upt_conv_Cons)
  then show ?case unfolding step sj Suc(1) [OF k] by simp
qed


text \<open>
  Claim C5, amended. For a configuration with \<open>overlap < max_tokens\<close> and \<open>max_tokens \<ge> 1\<close>,
  the chunker returns, for the tokens of \<open>txt.split()\<close>, exactly the windows
  \<open>0, 1, ..., k-1\<close> in this order, where window \<open>j\<close> starts at token
  \<open>j * (max_tokens - overlap)\<close> and ends \<open>max_tokens\<close> tokens later or at the last token,
  whichever comes first: every window that reaches past the end is cut there, not the last
  one alone. A window is emitted exactly when it starts before the end of the tokens, so
  every emitted window is non-empty; chunk \<open>j\<close> carries \<open>idx = j\<close>, its window's bounds as
  \<open>token_start\<close> and \<open>token_end\<close>, and the space-joined tokens of the window.
\<close>

theorem chunk_text_windows:
  assumes ov: "overlap cfg < max_tokens cfg" and mp: "0 < max_tokens cfg"
  shows "chunk_text E cfg txt file_path fid mtime =
           Some (map (window_chunk E cfg file_path fid mtime (split txt))
                     [0..<window_count cfg (length (split txt))])
         \<and> (\<forall>j. (j < window_count cfg (length (split txt)))
                 = (window_start cfg j < int (length (split txt))))
         \<and> (\<forall>j < window_count cfg (length (split txt)).
               c_idx (window_chunk E cfg file_path fid mtime (split txt) j) = int j
             \<and> c_token_start (window_chunk E cfg file_path fid mtime (split txt) j)
                 = int j * (max_tokens cfg - overlap cfg)
             \<and> c_token_end (window_chunk E cfg file_path fid mtime (split txt) j)
                 = min (int j * (max_tokens cfg - overlap cfg) + max_tokens cfg)
                       (int (length (split txt)))
             \<and> c_token_start (window_chunk E cfg file_path fid mtime (split txt) j)
                 < c_token_end (window_chunk E cfg file_path fid mtime (split txt) j)
             \<and> c_text (window_chunk E cfg file_path fid mtime (split txt) j)
                 = join '' '' (py_slice (split txt)
                     (c_token_start (window_chunk E cfg file_path fid mtime (split txt) j))
                     (c_token_end (window_chunk E cfg file_path fid mtime (split txt) j))))"
proof -
  have ws: "\<forall>x \<in> set (split txt). x \<noteq> [] \<and> (\<forall>c \<in> set x. \<not> is_space c)"
    using split_words by blast
  have "window_start cfg 0 = 0" by (simp add: window_start_def)
  then have a: "chunk_text E cfg txt file_path fid mtime =
           Some (map (window_chunk E cfg file_path fid mtime (split txt))
                     [0..<window_count cfg (length (split txt))])"
    unfolding chunk_text_def
    using chunk_loop_windows [OF ov mp ws, of E file_path fid mtime 0 "[]"] by simp
  have b: "\<forall>j. (j < window_count cfg (length (split txt)))
                 = (window_start cfg j < int (length (split txt)))"
    using window_count_iff [OF ov] by blast
  have c: "\<And>j. j < window_count cfg (length (split txt)) \<Longrightarrow>
              window_start cfg j < window_end cfg (length (split txt)) j"
    using b mp by (simp add: window_end_def)
  show ?thesis using a b c by (simp add: window_chunk_def window_start_def window_end_def)
qed

text \<open>
  Five tokens, windows of four with an overlap of three: five chunks, the last three cut at
  the end of the tokens.
\<close>

theorem chunk_text_windows_witness:
  "overlap ex_index_config < max_tokens ex_index_config \<and> 0 < max_tokens ex_index_config
   \<and> map (\<lambda>c. (c_idx c, c_token_start c, c_token_end c, c_text c))
        (the (chunk_text ex_env ex_index_config ''a b  c d e'' ''/r/a.txt'' ''F'' 7))
     = [(0, 0, 4, ''a b c d''), (1, 1, 5, ''b c d e''), (2, 2, 5, ''c d e''),
        (3, 3, 5, ''d e''), (4, 4, 5, ''e'')]"
proof -
  have h1: "overlap ex_index_config < max_tokens ex_index_config"
    and h2: "0 < max_tokens ex_index_config" by (simp_all add: ex_index_config_def)
  have sp: "split ''a b  c d e'' = [''a'', ''b'', ''c'', ''d'', ''e'']" by code_simp
  have wc: "window_count ex_index_config 5 = 5" by code_simp
  have up: "[0..<5] = [0, 1, 2, 3, 4::nat]" by code_simp
  have len: "length [''a'', ''b'', ''c'', ''d'', ''e''] = 5" by simp
  from chunk_text_windows [OF h1 h2, of ex_env "''a b  c d e''" "''/r/a.txt''" "''F''" 7, THEN conjunct1]
  have "chunk_text ex_env ex_index_config ''a b  c d e'' ''/r/a.txt'' ''F'' 7 =
          Some (map (window_chunk ex_env ex_index_config ''/r/a.txt'' ''F'' 7
                  [''a'', ''b'', ''c'', ''d'', ''e'']) [0, 1, 2, 3, 4])"
    by (simp only: sp len wc up)
  moreover have "map (\<lambda>c. (c_idx c, c_token_start c, c_token_end c, c_text c))
      (map (window_chunk ex_env ex_index_config ''/r/a.txt'' ''F'' 7
                  [''a'', ''b'', ''c'', ''d'', ''e'']) [0, 1, 2, 3, 4])
     = [(0, 0, 4, ''a b c d''), (1, 1, 5, ''b c d e''), (2, 2, 5, ''c d e''),
        (3, 3, 5, ''d e''), (4, 4, 5, ''e'')]" by code_simp
  ultimately show ?thesis using h1 h2 by simp
qed

text \<open>
  Claim C5 as written fails on the code. With windows of four tokens and an overlap of
  three, five tokens give five chunks; window \<open>2\<close> should cover \<open>[2, 6)\<close> but its chunk
  ends at token \<open>5\<close>, although two more windows follow it. And \<open>overlap < max_tokens\<close>
  alone admits \<open>max_tokens = -1\<close>, \<open>overlap = -3\<close>, where the slice \<open>words[0:-1]\<close> makes
  the one chunk of \<open>a b c\<close> cover \<open>[0, 2)\<close> in place of \<open>[0, -1)\<close>.
\<close>

theorem chunk_text_windows_counterexample:
  "overlap ex_index_config < max_tokens ex_index_config
   \<and> chunk_windows (chunk_text ex_env ex_index_config ''a b c d e'' ''/r/a.txt'' ''F'' 7)
     = [(0, 0, 4), (1, 1, 5), (2, 2, 5), (3, 3, 5), (4, 4, 5)]
   \<and> snd (snd (chunk_windows
         (chunk_text ex_env ex_index_config ''a b c d e'' ''/r/a.txt'' ''F'' 7) ! 2))
     \<noteq> 2 * (max_tokens ex_index_config - overlap ex_index_config) + max_tokens ex_index_config
   \<and> overlap ex_negative_config < max_tokens ex_negative_config
   \<and> chunk_windows (chunk_text ex_env ex_negative_config ''a b c'' ''/r/a.txt'' ''F'' 7)
     = [(0, 0, 2)]
   \<and> snd (snd (chunk_windows
         (chunk_text ex_env ex_negative_config ''a b c'' ''/r/a.txt'' ''F'' 7) ! 0))
     \<noteq> 0 * (max_tokens ex_negative_config - overlap ex_negative_config)
         + max_tokens ex_negative_config"
  by code_simp
section \<open>Snippets\<close>

lemma fold_earliest_word_none:
  "\<forall>w \<in> set ws. \<not> contains t w \<Longrightarrow> fold (earliest_word t) ws e = e"
  by (induction ws arbitrary: e) (auto simp: earliest_word_def contains_def)

lemma find_best_match_none:
  assumes "\<not> contains (lower txt) (lower query)"
    and "\<forall>w \<in> set (split (lower query)). \<not> contains (lower txt) w"
  shows "find_best_match txt query = - 1"
  using assms fold_earliest_word_none [OF assms(2), of "int (length txt)"]
  by (simp add: find_best_match_def contains_def)

lemma py_slice_to_take: "0 \<le> b \<Longrightarrow> py_slice_to xs b = take (nat b) xs"
  by (simp add: py_slice_to_def py_slice_def clamp_index_def min_def)

text \<open>
  Claim C10, amended. For a non-empty chunk text, a query that is empty, or whose
  lowercased phrase and lowercased words all fail to occur in the lowercased text, and a
  radius \<open>radius \<ge> 0\<close>, \<open>make_snippet\<close> falls back to the beginning of the text: the
  snippet is the first \<open>2 * radius\<close> characters and the positions are
  \<open>(0, min (2 * radius) (len text))\<close>, so \<open>0 \<le> start \<le> end \<le> len text\<close>.
\<close>

theorem make_snippet_fallback:
  assumes "chunk_txt \<noteq> []"
    and "query = [] \<or> (\<not> contains (lower chunk_txt) (lower query)
           \<and> (\<forall>w \<in> set (split (lower query)). \<not> contains (lower chunk_txt) w))"
    and "0 \<le> radius"
  shows "make_snippet chunk_txt query radius
           = (take (nat (2 * radius)) chunk_txt, 0, min (2 * radius) (int (length chunk_txt)))
         \<and> 0 \<le> fst (snd (make_snippet chunk_txt query radius))
         \<and> fst (snd (make_snippet chunk_txt query radius))
             \<le> snd (snd (make_snippet chunk_txt query radius))
         \<and> snd (snd (make_snippet chunk_txt query radius)) \<le> int (length chunk_txt)"
proof -
  have "query = [] \<or> find_best_match chunk_txt query = - 1"
    using assms(2) find_best_match_none by blast
  then have "make_snippet chunk_txt query radius
      = (py_slice_to chunk_txt (radius * 2), 0, min (radius * 2) (int (length chunk_txt)))"
    by (auto simp: make_snippet_def)
  moreover have "py_slice_to chunk_txt (radius * 2) = take (nat (2 * radius)) chunk_txt"
    using assms(3) by (simp add: py_slice_to_take mult.commute)
  ultimately show ?thesis using assms(3) by (simp add: mult.commute)
qed

text \<open>The no-match case of the test suite, and an empty query.\<close>

theorem make_snippet_fallback_witness:
  "''This document has no relevant content.'' \<noteq> []
   \<and> \<not> contains (lower ''This document has no relevant content.'') (lower ''Nonexistent Zebra'')
   \<and> \<not> contains (lower ''This document has no relevant content.'') ''nonexistent''
   \<and> \<not> contains (lower ''This document has no relevant content.'') ''zebra''
   \<and> make_snippet ''This document has no relevant content.'' ''Nonexistent Zebra'' 5
       = (''This docum'', 0, 10)
   \<and> make_snippet ''short'' [] 5 = (''short'', 0, 5)"
proof -
  have t: "''This document has no relevant content.'' \<noteq> []" by simp
  have sp: "split (lower ''Nonexistent Zebra'') = [''nonexistent'', ''zebra'']" by code_simp
  have c0: "\<not> contains (lower ''This document has no relevant content.'') (lower ''Nonexistent Zebra'')"
    by code_simp
  have c1: "\<not> contains (lower ''This document has no relevant content.'') ''nonexistent''"
    by code_simp
  have c2: "\<not> contains (lower ''This document has no relevant content.'') ''zebra''"
    by code_simp
  have h: "''Nonexistent Zebra'' = [] \<or> (\<not> contains (lower ''This document has no relevant content.'') (lower ''Nonexistent Zebra'')
           \<and> (\<forall>w \<in> set (split (lower ''Nonexistent Zebra'')). \<not> contains (lower ''This document has no relevant content.'') w))"
    using c0 c1 c2 by (simp add: sp)
  have r: "(0::int) \<le> 5" by simp
  have a: "make_snippet ''This document has no relevant content.'' ''Nonexistent Zebra'' 5
       = (''This docum'', 0, 10)"
    using make_snippet_fallback [OF t h r] by simp
  have b: "make_snippet ''short'' [] 5 = (''short'', 0, 5)"
    using make_snippet_fallback [of "''short''" "[]" 5] by simp
  show ?thesis using t c0 c1 c2 a b by blast
qed

text \<open>
  Claim C10 as written, for every radius, fails on the code: \<open>make_snippet\<close> does not check
  the radius it is given, and with \<open>radius = -2\<close> the slice \<open>chunk_text[:-4]\<close> drops the last
  four characters and the end position is \<open>min(-4, len) = -4\<close>, below the start position.
\<close>

theorem make_snippet_fallback_counterexample:
  "''hello world'' \<noteq> []
   \<and> \<not> contains (lower ''hello world'') (lower ''zzz'')
   \<and> split (lower ''zzz'') = [''zzz'']
   \<and> make_snippet ''hello world'' ''zzz'' (- 2) = (''hello w'', 0, - 4)
   \<and> \<not> fst (snd (make_snippet ''hello world'' ''zzz'' (- 2)))
         \<le> snd (snd (make_snippet ''hello world'' ''zzz'' (- 2)))"
  by code_simp
section \<open>Score fusion\<close>

lemma map_of_map_snd:
  "map_of (map (\<lambda>kv. (fst kv, f (snd kv))) xs) k = map_option f (map_of xs k)"
  by (induction xs) auto

lemma dict_get_normalize:
  "dict_get (normalize_scores cands) k 0 =
     (case map_of cands k of
        None \<Rightarrow> 0
      | Some s \<Rightarrow> if Max (set (map snd cands)) = Min (set (map snd cands)) then s
                  else (s - Min (set (map snd cands)))
                       / (Max (set (map snd cands)) - Min (set (map snd cands))))"
proof -
  define mn where "mn = Min (set (map snd cands))"
  define mx where "mx = Max (set (map snd cands))"
  have n: "normalize_scores cands =
      (if cands = [] then [] else if mx = mn then cands
       else map (\<lambda>kv. (fst kv, (\<lambda>s. (s - mn) / (mx - mn)) (snd kv))) cands)"
    unfolding normalize_scores_def mn_def mx_def by simp
  have m: "map_of (map (\<lambda>kv. (fst kv, (\<lambda>s. (s - mn) / (mx - mn)) (snd kv))) cands) k
             = map_option (\<lambda>s. (s - mn) / (mx - mn)) (map_of cands k)"
    by (rule map_of_map_snd)
  show ?thesis
    unfolding mn_def [symmetric] mx_def [symmetric] dict_get_def n
    using m by (cases "map_of cands k") (auto split: if_splits)
qed

lemma minmax_unit:
  fixes s :: real
  assumes "mn \<le> s" "s \<le> mx" "mx \<noteq> mn"
  shows "0 \<le> (s - mn) / (mx - mn) \<and> (s - mn) / (mx - mn) \<le> 1"
proof -
  have "mn < mx" using assms by linarith
  then show ?thesis using assms by (simp add: divide_le_eq)
qed

lemma dict_get_normalize_unit:
  assumes "channel_in_unit cands"
  shows "0 \<le> dict_get (normalize_scores cands) k 0 \<and> dict_get (normalize_scores cands) k 0 \<le> 1"
proof (cases "map_of cands k")
  case None
  then show ?thesis by (simp add: dict_get_normalize)
next
  case (Some s)
  then have mem: "(k, s) \<in> set cands" by (rule map_of_SomeD)
  then have sm: "s \<in> set (map snd cands)" by force
  show ?thesis
  proof (cases "Max (set (map snd cands)) = Min (set (map snd cands))")
    case True
    with assms have "list_all (\<lambda>kv. 0 \<le> snd kv \<and> snd kv \<le> 1) cands"
      by (simp add: channel_in_unit_def)
    with mem have "0 \<le> s \<and> s \<le> 1" by (auto simp: list_all_iff)
    with Some True show ?thesis by (simp add: dict_get_normalize)
  next
    case False
    have "Min (set (map snd cands)) \<le> s" "s \<le> Max (set (map snd cands))"
      using sm by (simp_all)
    from minmax_unit [OF this] False Some show ?thesis
      by (simp add: dict_get_normalize)
  qed
qed

lemma exact_unit: "0 \<le> calculate_exact_match q t \<and> calculate_exact_match q t \<le> 1"
proof -
  let ?qs = "remdups (split (strip (lower q)))"
  have "length (filter (\<lambda>w. w \<in> set (split (lower t))) ?qs) \<le> length ?qs" by simp
  then have "real (length (filter (\<lambda>w. w \<in> set (split (lower t))) ?qs)) / real (length ?qs) \<le> 1"
    by (simp add: divide_le_eq_1)
  then show ?thesis by (simp add: calculate_exact_match_def)
qed

lemma position_unit:
  "calculate_position_bonus q t = Some p \<Longrightarrow> 0 \<le> p \<and> p \<le> 1"
proof -
  assume a: "calculate_position_bonus q t = Some p"
  have f: "str_find (lower t) (strip (lower q)) \<noteq> - 1 \<Longrightarrow> 0 \<le> str_find (lower t) (strip (lower q))"
  proof -
    have "\<And>t q i. find_from t q i = - 1 \<or> int i \<le> find_from t q i"
    proof -
      fix t q i show "find_from t q i = - 1 \<or> int i \<le> find_from t q i"
        by (induction t q i rule: find_from.induct) (auto split: if_splits)
    qed
    then have "str_find (lower t) (strip (lower q)) = - 1 \<or> 0 \<le> str_find (lower t) (strip (lower q))"
      unfolding str_find_def by (metis of_nat_0)
    moreover assume "str_find (lower t) (strip (lower q)) \<noteq> - 1"
    ultimately show ?thesis by simp
  qed
  from a f show ?thesis
    by (auto simp: calculate_position_bonus_def split: if_splits)
qed

lemma position_some: "t \<noteq> [] \<Longrightarrow> \<exists>p. calculate_position_bonus q t = Some p"
  by (simp add: calculate_position_bonus_def lower_def)

lemma score_one_cases:
  "score_one cat query vnm lnm W B cid = Inr None
   \<or> (\<exists>m t p. t \<noteq> [] \<and> calculate_position_bonus query t = Some p
        \<and> score_one cat query vnm lnm W B cid = Inr (Some
             (make_scored_chunk W B cid m t (dict_get vnm cid 0) (dict_get lnm cid 0)
                (calculate_exact_match query t) p)))"
proof (cases "chunk_meta cat cid")
  case None
  then show ?thesis by (simp add: score_one_def)
next
  case (Some m)
  show ?thesis
  proof (cases "get_chunk_text cat cid")
    case None
    with Some show ?thesis by (simp add: score_one_def)
  next
    case (Some t)
    show ?thesis
    proof (cases "t = []")
      case True
      with Some \<open>chunk_meta cat cid = Some m\<close> show ?thesis by (simp add: score_one_def)
    next
      case False
      from position_some [OF False] obtain p where p: "calculate_position_bonus query t = Some p"
        by blast
      have "score_one cat query vnm lnm W B cid = Inr (Some
             (make_scored_chunk W B cid m t (dict_get vnm cid 0) (dict_get lnm cid 0)
                (calculate_exact_match query t) p))"
        using p False Some \<open>chunk_meta cat cid = Some m\<close> by (simp add: score_one_def)
      with p False show ?thesis by blast
    qed
  qed
qed

lemma make_scored_chunk_fused:
  assumes "calculate_position_bonus query t = Some p"
  shows "fused W B vnm lnm query
           (make_scored_chunk W B cid m t (dict_get vnm cid 0) (dict_get lnm cid 0)
              (calculate_exact_match query t) p)"
  unfolding fused_def make_scored_chunk_def final_score_def
  using assms exact_unit [of query t] position_unit [OF assms] by simp

lemma score_one_fused:
  assumes "score_one cat query vnm lnm W B cid = Inr (Some sc)"
  shows "fused W B vnm lnm query sc \<and> sc_chunk_id sc = cid"
proof -
  from score_one_cases [of cat query vnm lnm W B cid] assms
  obtain m t p where t: "calculate_position_bonus query t = Some p"
    and sc: "sc = make_scored_chunk W B cid m t (dict_get vnm cid 0) (dict_get lnm cid 0)
                (calculate_exact_match query t) p"
    by auto
  have "sc_chunk_id sc = cid" unfolding sc by (simp add: make_scored_chunk_def)
  then show ?thesis using make_scored_chunk_fused [OF t] sc by simp
qed

lemma score_all_ok:
  "\<exists>rs. score_all cat query vnm lnm W B cids = Inr rs
        \<and> (\<forall>sc \<in> set rs. fused W B vnm lnm query sc \<and> sc_chunk_id sc \<in> set cids)"
proof (induction cids)
  case Nil
  then show ?case by simp
next
  case (Cons cid cids)
  then obtain rs where rs: "score_all cat query vnm lnm W B cids = Inr rs"
    and all: "\<forall>sc \<in> set rs. fused W B vnm lnm query sc \<and> sc_chunk_id sc \<in> set cids" by blast
  from score_one_cases [of cat query vnm lnm W B cid]
  obtain r where r: "score_one cat query vnm lnm W B cid = Inr r" by blast
  show ?case
  proof (cases r)
    case None
    with r rs all show ?thesis by simp
  next
    case (Some sc)
    with r score_one_fused have "fused W B vnm lnm query sc \<and> sc_chunk_id sc = cid" by blast
    with Some r rs all show ?thesis by simp
  qed
qed

lemma set_py_slice_to: "set (py_slice_to xs n) \<subseteq> set xs"
  unfolding py_slice_to_def py_slice_def
  by (meson set_drop_subset set_take_subset subset_trans)

lemma set_sort_desc: "set (sort_desc xs) = set xs"
  by (simp add: sort_desc_def)

lemma set_all_chunk_ids: "set (all_chunk_ids v l) = fst ` set v \<union> fst ` set l"
  by (auto simp: all_chunk_ids_def)

text \<open>
  Claim C1, as amended. Score fusion never raises, and every scored chunk it returns belongs
  to a candidate of the union, has \<open>final = bm25_weight * b + cosine_weight * c +
  exact_boost * e + early_pos_boost * p\<close> as its score, where \<open>b\<close> and \<open>c\<close> are the
  min-max-normalised channel scores of its chunk id (\<open>0\<close> when the id is absent from the
  channel, the raw score when all scores of the channel are equal), \<open>e\<close> is the exact-match
  bonus and \<open>p\<close> the position bonus, both in \<open>[0, 1]\<close>. \<open>b\<close> (and likewise \<open>c\<close>) lies in
  \<open>[0, 1]\<close> when its channel holds two different raw scores or raw scores within \<open>[0, 1]\<close>.
\<close>

theorem merge_and_score_fusion:
  "\<exists>scs. merge_and_score cfg cat query vec_candidates lex_candidates w b = Inr scs
     \<and> (\<forall>sc \<in> set scs.
          sc_chunk_id sc \<in> fst ` set vec_candidates \<union> fst ` set lex_candidates
        \<and> fused (default_weights cfg w) (default_boosts cfg b)
            (normalize_scores vec_candidates) (normalize_scores lex_candidates) query sc
        \<and> bm25 (sc_breakdown sc) =
            (case map_of lex_candidates (sc_chunk_id sc) of
               None \<Rightarrow> 0
             | Some s \<Rightarrow>
                 if Max (set (map snd lex_candidates)) = Min (set (map snd lex_candidates))
                 then s
                 else (s - Min (set (map snd lex_candidates)))
                      / (Max (set (map snd lex_candidates)) - Min (set (map snd lex_candidates))))
        \<and> cosine (sc_breakdown sc) =
            (case map_of vec_candidates (sc_chunk_id sc) of
               None \<Rightarrow> 0
             | Some s \<Rightarrow>
                 if Max (set (map snd vec_candidates)) = Min (set (map snd vec_candidates))
                 then s
                 else (s - Min (set (map snd vec_candidates)))
                      / (Max (set (map snd vec_candidates)) - Min (set (map snd vec_candidates))))
        \<and> (channel_in_unit lex_candidates
             \<longrightarrow> 0 \<le> bm25 (sc_breakdown sc) \<and> bm25 (sc_breakdown sc) \<le> 1)
        \<and> (channel_in_unit vec_candidates
             \<longrightarrow> 0 \<le> cosine (sc_breakdown sc) \<and> cosine (sc_breakdown sc) \<le> 1))"
proof (cases "all_chunk_ids vec_candidates lex_candidates = []")
  case True
  then show ?thesis by (simp add: merge_and_score_def)
next
  case False
  let ?W = "default_weights cfg w" and ?B = "default_boosts cfg b"
  let ?vnm = "normalize_scores vec_candidates" and ?lnm = "normalize_scores lex_candidates"
  from score_all_ok [of cat query ?vnm ?lnm ?W ?B "all_chunk_ids vec_candidates lex_candidates"]
  obtain rs where rs: "score_all cat query ?vnm ?lnm ?W ?B
        (all_chunk_ids vec_candidates lex_candidates) = Inr rs"
    and all: "\<forall>sc \<in> set rs. fused ?W ?B ?vnm ?lnm query sc
        \<and> sc_chunk_id sc \<in> set (all_chunk_ids vec_candidates lex_candidates)" by blast
  have m: "merge_and_score cfg cat query vec_candidates lex_candidates w b
             = Inr (py_slice_to (sort_desc rs) (merge_k cfg))"
    using False rs by (simp add: merge_and_score_def)
  have sub: "set (py_slice_to (sort_desc rs) (merge_k cfg)) \<subseteq> set rs"
    using set_py_slice_to [of "sort_desc rs" "merge_k cfg"] by (simp add: set_sort_desc)
  have each: "sc_chunk_id sc \<in> fst ` set vec_candidates \<union> fst ` set lex_candidates
        \<and> fused ?W ?B ?vnm ?lnm query sc
        \<and> bm25 (sc_breakdown sc) = dict_get ?lnm (sc_chunk_id sc) 0
        \<and> cosine (sc_breakdown sc) = dict_get ?vnm (sc_chunk_id sc) 0"
    if "sc \<in> set (py_slice_to (sort_desc rs) (merge_k cfg))" for sc
  proof -
    from that sub have "sc \<in> set rs" by blast
    with all have f: "fused ?W ?B ?vnm ?lnm query sc"
      and c: "sc_chunk_id sc \<in> set (all_chunk_ids vec_candidates lex_candidates)" by simp_all
    from f have "bm25 (sc_breakdown sc) = dict_get ?lnm (sc_chunk_id sc) 0"
      and "cosine (sc_breakdown sc) = dict_get ?vnm (sc_chunk_id sc) 0"
      by (simp_all add: fused_def)
    with f c show ?thesis by (simp add: set_all_chunk_ids)
  qed
  show ?thesis
  proof (intro exI conjI ballI)
    show "merge_and_score cfg cat query vec_candidates lex_candidates w b
             = Inr (py_slice_to (sort_desc rs) (merge_k cfg))" by (rule m)
  next
    fix sc assume a: "sc \<in> set (py_slice_to (sort_desc rs) (merge_k cfg))"
    show "sc_chunk_id sc \<in> fst ` set vec_candidates \<union> fst ` set lex_candidates"
      using each [OF a] by simp
    show "fused ?W ?B ?vnm ?lnm query sc" using each [OF a] by simp
    show "bm25 (sc_breakdown sc) =
            (case map_of lex_candidates (sc_chunk_id sc) of
               None \<Rightarrow> 0
             | Some s \<Rightarrow>
                 if Max (set (map snd lex_candidates)) = Min (set (map snd lex_candidates))
                 then s
                 else (s - Min (set (map snd lex_candidates)))
                      / (Max (set (map snd lex_candidates)) - Min (set (map snd lex_candidates))))"
      using each [OF a] dict_get_normalize [of lex_candidates "sc_chunk_id sc"] by simp
    show "cosine (sc_breakdown sc) =
            (case map_of vec_candidates (sc_chunk_id sc) of
               None \<Rightarrow> 0
             | Some s \<Rightarrow>
                 if Max (set (map snd vec_candidates)) = Min (set (map snd vec_candidates))
                 then s
                 else (s - Min (set (map snd vec_candidates)))
                      / (Max (set (map snd vec_candidates)) - Min (set (map snd vec_candidates))))"
      using each [OF a] dict_get_normalize [of vec_candidates "sc_chunk_id sc"] by simp
    show "channel_in_unit lex_candidates
             \<longrightarrow> 0 \<le> bm25 (sc_breakdown sc) \<and> bm25 (sc_breakdown sc) \<le> 1"
      using each [OF a] dict_get_normalize_unit [of lex_candidates "sc_chunk_id sc"] by simp
    show "channel_in_unit vec_candidates
             \<longrightarrow> 0 \<le> cosine (sc_breakdown sc) \<and> cosine (sc_breakdown sc) \<le> 1"
      using each [OF a] dict_get_normalize_unit [of vec_candidates "sc_chunk_id sc"] by simp
  qed
qed

text \<open>
  Both channels hold two different scores; the query \<open>Beta\<close> occurs in the texts of \<open>A\<close>
  (at the end) and \<open>B\<close> (at the start).
\<close>

theorem merge_and_score_fusion_witness:
  "channel_in_unit [(''B'', 10), (''C'', 5)] \<and> channel_in_unit [(''A'', 0.9), (''B'', 0.6)]
   \<and> breakdowns (merge_and_score ex_search_config ex_catalog ''Beta''
        [(''A'', 0.9), (''B'', 0.6)] [(''B'', 10), (''C'', 5)] None None)
      = [(''B'', 1, 0, 1, 1, 0.85), (''A'', 0, 1, 1, 0, 0.65), (''C'', 0, 0, 0, 0, 0)]"
proof -
  have h1: "channel_in_unit [(''B'', 10), (''C'', 5)]"
    and h2: "channel_in_unit [(''A'', 0.9), (''B'', 0.6)]"
    by (simp_all add: channel_in_unit_def)
  have ev: "breakdowns (merge_and_score ex_search_config ex_catalog ''Beta''
        [(''A'', 0.9), (''B'', 0.6)] [(''B'', 10), (''C'', 5)] None None)
      = [(''B'', 1, 0, 1, 1, 0.85), (''A'', 0, 1, 1, 0, 0.65), (''C'', 0, 0, 0, 0, 0)]"
    by code_simp
  from merge_and_score_fusion [of ex_search_config ex_catalog "''Beta''"
      "[(''A'', 0.9), (''B'', 0.6)]" "[(''B'', 10), (''C'', 5)]" None None]
  obtain scs where "merge_and_score ex_search_config ex_catalog ''Beta''
        [(''A'', 0.9), (''B'', 0.6)] [(''B'', 10), (''C'', 5)] None None = Inr scs"
    by blast
  with ev h1 h2 show ?thesis by simp
qed

text \<open>
  Claim C1 as stated fails: a lexical channel with a single hit of raw score \<open>10\<close> is left
  unchanged, so the \<open>bm25\<close> component of the returned chunk is \<open>10\<close>, outside \<open>[0, 1]\<close>.
\<close>

theorem merge_and_score_unit_counterexample:
  "breakdowns (merge_and_score ex_search_config ex_catalog ''zebra'' [] [(''A'', 10)] None None)
     = [(''A'', 10, 0, 0, 0, 5.5)]
   \<and> \<not> list_all (\<lambda>r. 0 \<le> fst (snd r) \<and> fst (snd r) \<le> 1)
         (breakdowns (merge_and_score ex_search_config ex_catalog ''zebra'' []
            [(''A'', 10)] None None))"
proof -
  have ev: "breakdowns (merge_and_score ex_search_config ex_catalog ''zebra'' [] [(''A'', 10)] None None)
     = [(''A'', 10, 0, 0, 0, 5.5)]"
    by code_simp
  show ?thesis unfolding ev by simp
qed

text \<open>
  Claim C3, as amended. Feeding the fuser the vector candidates \<open>{A: 0.9, B: 0.6}\<close> and the
  lexical candidates \<open>{B: 10.0, C: 5.0}\<close> yields the normalised values
  \<open>{A: 1.0, B: 0.0}\<close> and \<open>{B: 1.0, C: 0.0}\<close>; with the default weights and a query that
  earns no bonus the final scores are \<open>B = 0.55\<close>, \<open>A = 0.45\<close>, \<open>C = 0\<close> and the ranking is
  \<open>B > A > C\<close>.
\<close>

theorem fuser_scenario:
  "normalize_scores [(''A'', 0.9), (''B'', 0.6)] = [(''A'', 1), (''B'', 0)]
   \<and> normalize_scores [(''B'', 10), (''C'', 5)] = [(''B'', 1), (''C'', 0)]
   \<and> breakdowns (merge_and_score ex_search_config ex_catalog ''zebra''
        [(''A'', 0.9), (''B'', 0.6)] [(''B'', 10), (''C'', 5)] None None)
      = [(''B'', 1, 0, 0, 0, 0.55), (''A'', 0, 1, 0, 0, 0.45), (''C'', 0, 0, 0, 0, 0)]
   \<and> ranking (merge_and_score ex_search_config ex_catalog ''zebra''
        [(''A'', 0.9), (''B'', 0.6)] [(''B'', 10), (''C'', 5)] None None)
      = [(''B'', 0.55), (''A'', 0.45), (''C'', 0)]"
  by code_simp

text \<open>
  Claim C3 as stated fails: the final score of \<open>C\<close> is not \<open>0.55\<close>, and \<open>C\<close> ranks below
  \<open>A\<close>.
\<close>

theorem fuser_scenario_counterexample:
  "dict_get (ranking (merge_and_score ex_search_config ex_catalog ''zebra''
        [(''A'', 0.9), (''B'', 0.6)] [(''B'', 10), (''C'', 5)] None None)) ''C'' 1 \<noteq> 0.55
   \<and> dict_get (ranking (merge_and_score ex_search_config ex_catalog ''zebra''
        [(''A'', 0.9), (''B'', 0.6)] [(''B'', 10), (''C'', 5)] None None)) ''C'' 1
      < dict_get (ranking (merge_and_score ex_search_config ex_catalog ''zebra''
        [(''A'', 0.9), (''B'', 0.6)] [(''B'', 10), (''C'', 5)] None None)) ''A'' 1"
proof -
  have ev: "ranking (merge_and_score ex_search_config ex_catalog ''zebra''
        [(''A'', 0.9), (''B'', 0.6)] [(''B'', 10), (''C'', 5)] None None)
      = [(''B'', 0.55), (''A'', 0.45), (''C'', 0)]"
    by code_simp
  show ?thesis unfolding ev by (simp add: dict_get_def)
qed

section \<open>The search API\<close>

lemma map_of_dict_set:
  "map_of (dict_set k v d) k' = (if k' = k then Some v else map_of d k')"
  by (induction d) auto

lemma list_all_dict_set:
  "list_all P d \<Longrightarrow> P (k, v) \<Longrightarrow> list_all P (dict_set k v d)"
  by (induction d) auto

lemma ceil_div:
  fixes T P :: int
  assumes "1 \<le> P"
  shows "(T + P - 1) div P = \<lceil>real_of_int T / real_of_int P\<rceil>"
proof -
  have p: "0 < P" using assms by simp
  have "\<lceil>real_of_int T / real_of_int P\<rceil> = - ((- T) div P)"
    by (rule ceiling_divide_eq_div)
  also have "\<dots> = (T + P - 1) div P"
  proof (cases "T mod P = 0")
    case True
    then have "(T + P - 1) div P = T div P + (P - 1) div P"
      by (metis add_diff_eq div_add1_eq mod_0 True add.commute  add.right_neutral div_by_0 mod_div_trivial)
    then show ?thesis using True p by (simp add: zdiv_zminus1_eq_if div_pos_pos_trivial)
  next
    case False
    have "T = (T div P) * P + T mod P" by simp
    have m1: "0 < T mod P" using False p by (simp add: less_le)
    have m2: "T mod P < P" using p by simp
    have "(T + P - 1) = (T div P + 1) * P + (T mod P - 1)" by (simp add: algebra_simps)
    moreover have "0 \<le> T mod P - 1" "T mod P - 1 < P" using m1 m2 by simp_all
    ultimately have "(T + P - 1) div P = T div P + 1"
      by (metis div_pos_pos_trivial add.right_neutral div_mult_self3 p less_irrefl add.commute)
    then show ?thesis using False p by (simp add: zdiv_zminus1_eq_if)
  qed
  finally show ?thesis by simp
qed

lemma has_fields_success: "has_fields (success_response q page pp hits t0 t1)"
  by (simp add: has_fields_def response_fields_def success_response_def)

lemma has_fields_error: "has_fields (error_response q page pp e t0 t1)"
  by (simp add: has_fields_def response_fields_def error_response_def)

lemma no_error_success: "map_of (success_response q page pp hits t0 t1) ''error'' = None"
  by (simp add: success_response_def)

lemma paginated_success:
  "1 \<le> pp \<Longrightarrow> paginated page pp (success_response q page pp hits t0 t1)"
  by (simp add: paginated_def success_response_def ceil_div)

lemma has_fields_mark: "has_fields r \<Longrightarrow> has_fields (dict_set ''cache_hit'' v r)"
  by (simp add: has_fields_def response_fields_def map_of_dict_set)

lemma no_error_mark:
  "map_of r ''error'' = None \<Longrightarrow> map_of (dict_set ''cache_hit'' v r) ''error'' = None"
  by (simp add: map_of_dict_set)

lemma paginated_mark: "paginated page pp r \<Longrightarrow> paginated page pp (dict_set ''cache_hit'' v r)"
  by (auto simp: paginated_def map_of_dict_set split: option.splits rvalue.splits)

lemma page_end: "(page - 1) * pp + pp = page * (pp :: int)"
  by (simp add: algebra_simps)

lemma page_of_hits_success:
  "page_of_hits hits page pp (success_response q page pp hits t0 t1)"
  by (simp add: page_of_hits_def success_response_def page_end)

lemma page_of_hits_mark:
  "page_of_hits hits page pp r \<Longrightarrow> page_of_hits hits page pp (dict_set ''cache_hit'' v r)"
  by (simp add: page_of_hits_def map_of_dict_set)

lemma entry_ok_success:
  "entry_ok cfg E ((q, k, page, pp, ops),
     success_response q page pp (search_hits_of E (search_options_of cfg ops) q scs) t0 t1, ts)"
proof -
  have "\<exists>scored_chunks.
      page_of_hits (search_hits_of E (search_options_of cfg ops) q scored_chunks) page pp
        (success_response q page pp (search_hits_of E (search_options_of cfg ops) q scs)
           t0 t1)"
    using page_of_hits_success by blast
  moreover have "pp < 1 \<or> paginated page pp
        (success_response q page pp (search_hits_of E (search_options_of cfg ops) q scs)
           t0 t1)"
    using paginated_success [of pp] by (cases "1 \<le> pp") simp_all
  ultimately show ?thesis
    by (simp add: entry_ok_def has_fields_success no_error_success)
qed

lemma entry_ok_mark:
  assumes "entry_ok cfg E (key, r, ts)"
  shows "entry_ok cfg E (key, dict_set ''cache_hit'' v r, ts')"
proof -
  obtain q k page pp ops where key: "key = (q, k, page, pp, ops)" by (cases key) auto
  from assms obtain chunks where
    f: "has_fields r" and n: "map_of r ''error'' = None"
    and h: "page_of_hits (search_hits_of E (search_options_of cfg ops) q chunks) page pp r"
    and g: "pp < 1 \<or> paginated page pp r"
    unfolding key entry_ok_def by auto
  have "\<exists>scored_chunks.
      page_of_hits (search_hits_of E (search_options_of cfg ops) q scored_chunks) page pp
        (dict_set ''cache_hit'' v r)"
    using page_of_hits_mark [OF h] by blast
  moreover have "pp < 1 \<or> paginated page pp (dict_set ''cache_hit'' v r)"
    using g paginated_mark by blast
  ultimately show ?thesis
    unfolding key entry_ok_def using has_fields_mark [OF f] no_error_mark [OF n] by simp
qed

lemma cache_ok_lookup:
  assumes "cache_ok cfg E st"
  shows "cache_ok cfg E (snd (get_cached_result st now key))"
    and "fst (get_cached_result st now key) = Some r \<Longrightarrow>
           entry_ok cfg E (key, r, snd (the (map_of (cache (snd (get_cached_result st now key))) key)))"
proof -
  show "cache_ok cfg E (snd (get_cached_result st now key))"
    using assms by (auto simp: get_cached_result_def cache_ok_def list_all_iff split: option.splits)
next
  assume a: "fst (get_cached_result st now key) = Some r"
  then obtain ts where m: "map_of (cache st) key = Some (r, ts)"
    and s: "get_cached_result st now key = (Some r, st)"
    by (auto simp: get_cached_result_def split: option.splits if_splits)
  from m have "(key, r, ts) \<in> set (cache st)" by (rule map_of_SomeD)
  with assms have "entry_ok cfg E (key, r, ts)" by (simp add: cache_ok_def list_all_iff)
  with m s show "entry_ok cfg E (key, r, snd (the (map_of (cache (snd (get_cached_result st now key))) key)))"
    by simp
qed

lemma cache_ok_cache_result:
  assumes "cache_ok cfg E st" "entry_ok cfg E (key, r, now)" "cache_result cfg st now key r = Inr st'"
  shows "cache_ok cfg E st'"
proof -
  have f: "list_all (entry_ok cfg E) (filter P (cache st))" for P
    using assms(1) by (simp add: cache_ok_def list_all_iff)
  have a: "list_all (entry_ok cfg E) (dict_set key (r, now) (cache st))"
    using assms(1,2) by (simp add: cache_ok_def list_all_dict_set)
  have b: "list_all (entry_ok cfg E) (dict_set key (r, now) (filter P (cache st)))" for P
    using f assms(2) by (simp add: list_all_dict_set)
  show ?thesis
  proof (cases "int (length (cache st)) \<ge> cache_size cfg")
    case False
    with assms(3) have "st' = st\<lparr>cache := dict_set key (r, now) (cache st)\<rparr>"
      by (simp add: cache_result_def)
    with a show ?thesis by (simp add: cache_ok_def)
  next
    case True
    show ?thesis
    proof (cases "cache st")
      case Nil
      with True assms(3) show ?thesis by (simp add: cache_result_def)
    next
      case (Cons e es)
      with True assms(3) have "st' = st\<lparr>cache := dict_set key (r, now)
                    (filter (\<lambda>x. fst x \<noteq> fst (oldest_entry e es)) (cache st))\<rparr>"
        by (simp add: cache_result_def)
      with b show ?thesis by (simp add: cache_ok_def)
    qed
  qed
qed

lemma run_body_cases:
  assumes "cache_ok cfg E st"
  shows "(\<exists>e. run_body cfg E st t0 t1 outcome q page pp (search_options_of cfg ops) (q, k, page, pp, ops) = Inl e)
       \<or> (\<exists>chunks st'. outcome = Inr chunks \<and> pp \<noteq> 0 \<and> cache_ok cfg E st'
            \<and> run_body cfg E st t0 t1 outcome q page pp (search_options_of cfg ops) (q, k, page, pp, ops)
               = Inr (success_response q page pp (search_hits_of E (search_options_of cfg ops) q chunks) t0 t1, st'))"
proof (cases outcome)
  case (Inl e)
  then show ?thesis by (simp add: run_body_def)
next
  case (Inr chunks)
  show ?thesis
  proof (cases "pp = 0")
    case True
    with Inr show ?thesis by (simp add: run_body_def)
  next
    case False
    let ?r = "success_response q page pp (search_hits_of E (search_options_of cfg ops) q chunks) t0 t1"
    show ?thesis
    proof (cases "cache_result cfg st t1 (q, k, page, pp, ops) ?r")
      case (Inl e)
      with Inr False show ?thesis by (simp add: run_body_def)
    next
      case st': (Inr st')
      have "cache_ok cfg E st'"
        using cache_ok_cache_result [OF assms entry_ok_success st'] .
      with Inr False st' show ?thesis by (simp add: run_body_def)
    qed
  qed
qed

lemma py_slice_page:
  assumes "0 \<le> a" "0 \<le> p"
  shows "py_slice xs a (a + p) = take (nat p) (drop (nat a) xs)"
proof (cases "nat a < length xs")
  case True
  then show ?thesis using assms
    by (auto simp: py_slice_def clamp_index_def min_def nat_add_distrib)
next
  case False
  then show ?thesis using assms by (simp add: py_slice_def clamp_index_def)
qed

lemma try_block_cases:
  assumes "cache_ok cfg E st"
  shows "(\<exists>e. try_block cfg E st t0 t1 outcome query k page per_page opt = Inl e)
       \<or> (\<exists>chunks st'. outcome = Inr chunks \<and> per_page \<noteq> 0 \<and> cache_ok cfg E st'
            \<and> try_block cfg E st t0 t1 outcome query k page per_page opt
               = Inr (success_response query page per_page
                        (search_hits_of E (search_options_of cfg (opts_or_empty opt)) query chunks)
                        t0 t1, st'))"
  unfolding try_block_def cache_key_of_def
  by (rule run_body_cases) (rule cache_ok_lookup(1) [OF assms])

lemma try_block_raises:
  "outcome = Inl e \<Longrightarrow> try_block cfg E st t0 t1 outcome query k page per_page opt = Inl e"
  by (simp add: try_block_def run_body_def)

lemma run_core_hit:
  assumes "is_hit (fst (get_cached_result st t0 (cache_key_of cfg query k page per_page opt)))"
  shows "fst (run_core cfg E st t0 t1 outcome query k page per_page opt)
           = dict_set ''cache_hit'' (VBool True)
               (the (fst (get_cached_result st t0 (cache_key_of cfg query k page per_page opt))))"
    and "cache (snd (run_core cfg E st t0 t1 outcome query k page per_page opt))
           = dict_set (cache_key_of cfg query k page per_page opt)
               (dict_set ''cache_hit'' (VBool True)
                  (the (fst (get_cached_result st t0 (cache_key_of cfg query k page per_page opt)))),
                snd (the (map_of (cache (snd (get_cached_result st t0
                  (cache_key_of cfg query k page per_page opt))))
                  (cache_key_of cfg query k page per_page opt))))
               (cache (snd (get_cached_result st t0 (cache_key_of cfg query k page per_page opt))))"
  using assms by (simp_all add: run_core_def Let_def)

lemma run_core_miss:
  assumes "\<not> is_hit (fst (get_cached_result st t0 (cache_key_of cfg query k page per_page opt)))"
  shows "run_core cfg E st t0 t1 outcome query k page per_page opt =
           (case try_block cfg E st t0 t1 outcome query k page per_page opt of
              Inr rs \<Rightarrow> rs
            | Inl e \<Rightarrow> (error_response query page per_page e t0 t1,
                snd (get_cached_result st t0 (cache_key_of cfg query k page per_page opt))))"
  using assms by (simp add: run_core_def Let_def)

lemma run_core_hit_ok:
  assumes ok: "cache_ok cfg E st"
    and hit: "is_hit (fst (get_cached_result st t0 (cache_key_of cfg query k page per_page opt)))"
  shows "has_fields (fst (run_core cfg E st t0 t1 outcome query k page per_page opt))"
    and "cache_ok cfg E (snd (run_core cfg E st t0 t1 outcome query k page per_page opt))"
    and "1 \<le> per_page \<Longrightarrow>
           paginated page per_page (fst (run_core cfg E st t0 t1 outcome query k page per_page opt))"
    and "\<exists>chunks. page_of_hits
           (search_hits_of E (search_options_of cfg (opts_or_empty opt)) query chunks)
           page per_page (fst (run_core cfg E st t0 t1 outcome query k page per_page opt))"
proof -
  let ?key = "cache_key_of cfg query k page per_page opt"
  let ?l = "get_cached_result st t0 ?key"
  from hit obtain r where r: "fst ?l = Some r" by (auto simp: is_hit_def split: option.splits)
  let ?ts = "snd (the (map_of (cache (snd ?l)) ?key))"
  have e: "entry_ok cfg E (?key, r, ?ts)" by (rule cache_ok_lookup(2) [OF ok r])
  have e': "entry_ok cfg E (?key, dict_set ''cache_hit'' (VBool True) r, ?ts)"
    by (rule entry_ok_mark [OF e])
  have resp: "fst (run_core cfg E st t0 t1 outcome query k page per_page opt)
               = dict_set ''cache_hit'' (VBool True) r"
    using run_core_hit(1) [OF hit] r by simp
  show "has_fields (fst (run_core cfg E st t0 t1 outcome query k page per_page opt))"
    unfolding resp using e' by (simp add: entry_ok_def)
  have "list_all (entry_ok cfg E) (cache (snd ?l))"
    using cache_ok_lookup(1) [OF ok] by (simp add: cache_ok_def)
  then have "list_all (entry_ok cfg E)
      (dict_set ?key (dict_set ''cache_hit'' (VBool True) r, ?ts) (cache (snd ?l)))"
    using e' by (rule list_all_dict_set)
  then show "cache_ok cfg E (snd (run_core cfg E st t0 t1 outcome query k page per_page opt))"
    unfolding cache_ok_def run_core_hit(2) [OF hit] using r by simp
  show "paginated page per_page (fst (run_core cfg E st t0 t1 outcome query k page per_page opt))"
    if "1 \<le> per_page"
    unfolding resp using e' that by (simp add: entry_ok_def cache_key_of_def)
  show "\<exists>chunks. page_of_hits
           (search_hits_of E (search_options_of cfg (opts_or_empty opt)) query chunks)
           page per_page (fst (run_core cfg E st t0 t1 outcome query k page per_page opt))"
    unfolding resp using e' by (simp add: entry_ok_def cache_key_of_def)
qed

text \<open>Every call returns all fields and keeps the cache to responses that \<open>run\<close> built.\<close>

lemma run_core_keeps:
  assumes ok: "cache_ok cfg E st"
  shows "has_fields (fst (run_core cfg E st t0 t1 outcome query k page per_page opt))
       \<and> cache_ok cfg E (snd (run_core cfg E st t0 t1 outcome query k page per_page opt))"
proof (cases "is_hit (fst (get_cached_result st t0 (cache_key_of cfg query k page per_page opt)))")
  case True
  then show ?thesis using run_core_hit_ok(1,2) [OF ok True] by simp
next
  case False
  let ?blk = "try_block cfg E st t0 t1 outcome query k page per_page opt"
  note miss = run_core_miss [OF False, of E t1 outcome]
  from try_block_cases [OF ok, of t0 t1 outcome query k page per_page opt]
  show ?thesis
  proof
    assume "\<exists>e. ?blk = Inl e"
    then obtain e where "?blk = Inl e" by blast
    then show ?thesis
      using miss has_fields_error cache_ok_lookup(1) [OF ok] by simp
  next
    assume "\<exists>chunks st'. outcome = Inr chunks \<and> per_page \<noteq> 0 \<and> cache_ok cfg E st'
          \<and> ?blk = Inr (success_response query page per_page
               (search_hits_of E (search_options_of cfg (opts_or_empty opt)) query chunks)
               t0 t1, st')"
    then obtain chunks st' where "cache_ok cfg E st'"
      and "?blk = Inr (success_response query page per_page
               (search_hits_of E (search_options_of cfg (opts_or_empty opt)) query chunks)
               t0 t1, st')" by blast
    then show ?thesis using miss has_fields_success by simp
  qed
qed

text \<open>
  The hybrid retriever of the package absorbs the failures of its collaborators: \<open>search\<close>
  never raises, and without a query embedding, or with both channels down, it returns no
  chunk.
\<close>

lemma merge_and_score_returns:
  "\<exists>scored_chunks. merge_and_score cfg cat query vec_candidates lex_candidates w b
      = Inr scored_chunks"
proof (cases "all_chunk_ids vec_candidates lex_candidates = []")
  case True
  then show ?thesis by (simp add: merge_and_score_def)
next
  case False
  from score_all_ok [of cat query "normalize_scores vec_candidates"
      "normalize_scores lex_candidates" "default_weights cfg w" "default_boosts cfg b"
      "all_chunk_ids vec_candidates lex_candidates"]
  obtain rs where "score_all cat query (normalize_scores vec_candidates)
      (normalize_scores lex_candidates) (default_weights cfg w) (default_boosts cfg b)
      (all_chunk_ids vec_candidates lex_candidates) = Inr rs" by blast
  with False show ?thesis by (simp add: merge_and_score_def)
qed

lemma search_returns: "\<exists>chunks. search cfg cat R query k = Inr chunks"
proof (cases "query_embedding R")
  case None
  then show ?thesis by (simp add: search_def)
next
  case (Some qe)
  from merge_and_score_returns [of cfg cat query "vector_candidates R" "lexical_candidates R"
      None None]
  obtain scs where "merge_and_score cfg cat query (vector_candidates R) (lexical_candidates R)
      None None = Inr scs" by blast
  with Some show ?thesis by (simp add: search_def)
qed

lemma dedupe_by_file_nil: "dedupe_by_file [] n = []"
  by (simp add: dedupe_by_file_def file_best_def sort_desc_def)

lemma search_down:
  assumes "query_embedding R = None \<or> (vector_hits R = None \<and> fts_rows R = None)"
  shows "search cfg cat R query k = Inr []"
proof (cases "query_embedding R")
  case None
  then show ?thesis by (simp add: search_def)
next
  case (Some qe)
  with assms have "vector_candidates R = []" "lexical_candidates R = []"
    by (simp_all add: vector_candidates_def lexical_candidates_def)
  then have "merge_and_score cfg cat query (vector_candidates R) (lexical_candidates R)
      None None = Inr []"
    by (simp add: merge_and_score_def all_chunk_ids_def)
  with Some show ?thesis
    by (simp add: search_def dedupe_by_file_nil py_slice_to_def py_slice_def clamp_index_def)
qed

lemma search_hits_of_nil: "search_hits_of E so query [] = []"
  by (simp add: search_hits_of_def dedupe_by_file_nil)

lemma cache_result_returns:
  "0 < cache_size cfg \<Longrightarrow> \<exists>st'. cache_result cfg st now key r = Inr st'"
  by (cases "cache st") (simp_all add: cache_result_def)

lemma run_empty_result:
  assumes miss: "\<not> is_hit (fst (get_cached_result st t0
                     (cache_key_of cfg query k page per_page opt)))"
    and pp: "per_page \<noteq> 0" and cs: "0 < cache_size cfg"
    and emp: "search cfg cat R query (Some (k_or_default cfg k)) = Inr []"
  shows "fst (run cfg E cat R st t0 t1 query k page per_page opt)
           = success_response query page per_page [] t0 t1"
proof -
  let ?key = "cache_key_of cfg query k page per_page opt"
  let ?st = "snd (get_cached_result st t0 ?key)"
  from cache_result_returns [OF cs]
  obtain st' where "cache_result cfg ?st t1 ?key (success_response query page per_page [] t0 t1)
      = Inr st'" by blast
  then have "try_block cfg E st t0 t1 (Inr []) query k page per_page opt
      = Inr (success_response query page per_page [] t0 t1, st')"
    using pp by (simp add: try_block_def run_body_def search_hits_of_nil)
  then show ?thesis
    using run_core_miss [OF miss, of E t1 "Inr []"] emp by (simp add: run_def)
qed

text \<open>
  Claim C8, amended. \<open>SearchAPI.run\<close> never raises: whatever the retriever does (\<open>outcome\<close>,
  an exception included), the options and the time, it returns a response that holds the
  fields \<open>query\<close>, \<open>total_hits\<close>, \<open>page\<close>, \<open>per_page\<close>, \<open>total_pages\<close>, \<open>has_next\<close>,
  \<open>has_prev\<close>, \<open>items\<close>, \<open>search_time\<close>, \<open>cache_hit\<close> and \<open>timestamp\<close>, and it keeps the
  cache to such responses. A failure that reaches the \<open>try\<close> block of \<open>run\<close> (a retriever
  that raises, the division by \<open>per_page = 0\<close>, the eviction from an empty cache) gives the
  error response: \<open>error\<close> is the exception's text and \<open>items\<close> is empty; a block that
  returns gives a response without \<open>error\<close>. The hybrid retriever of the package never
  raises: without a query embedding, or with the vector store and the full-text search
  both down, \<open>search\<close> returns no chunk, and \<open>run\<close> then answers (on a cache miss, with
  \<open>per_page \<noteq> 0\<close> and a positive cache size) with the ordinary response for no hits, which
  has no \<open>error\<close> field.
\<close>

theorem run_core_structured:
  assumes ok: "cache_ok cfg E st"
  shows "has_fields (fst (run_core cfg E st t0 t1 outcome query k page per_page opt))
       \<and> cache_ok cfg E (snd (run_core cfg E st t0 t1 outcome query k page per_page opt))
       \<and> (\<forall>e. outcome = Inl e \<longrightarrow>
             try_block cfg E st t0 t1 outcome query k page per_page opt = Inl e)
       \<and> (\<forall>e. \<not> is_hit (fst (get_cached_result st t0
                   (cache_key_of cfg query k page per_page opt)))
              \<and> try_block cfg E st t0 t1 outcome query k page per_page opt = Inl e \<longrightarrow>
             fst (run_core cfg E st t0 t1 outcome query k page per_page opt)
               = error_response query page per_page e t0 t1
           \<and> map_of (fst (run_core cfg E st t0 t1 outcome query k page per_page opt)) ''error''
               = Some (VStr e)
           \<and> map_of (fst (run_core cfg E st t0 t1 outcome query k page per_page opt)) ''items''
               = Some (VItems []))
       \<and> (\<forall>rs. \<not> is_hit (fst (get_cached_result st t0
                   (cache_key_of cfg query k page per_page opt)))
              \<and> try_block cfg E st t0 t1 outcome query k page per_page opt = Inr rs \<longrightarrow>
             map_of (fst (run_core cfg E st t0 t1 outcome query k page per_page opt)) ''error''
               = None)
       \<and> has_fields (fst (run cfg E cat R st t0 t1 query k page per_page opt))
       \<and> cache_ok cfg E (snd (run cfg E cat R st t0 t1 query k page per_page opt))
       \<and> (\<exists>chunks. search cfg cat R query (Some (k_or_default cfg k)) = Inr chunks)
       \<and> (query_embedding R = None \<or> (vector_hits R = None \<and> fts_rows R = None) \<longrightarrow>
             search cfg cat R query (Some (k_or_default cfg k)) = Inr [])
       \<and> (\<not> is_hit (fst (get_cached_result st t0
                   (cache_key_of cfg query k page per_page opt)))
            \<and> per_page \<noteq> 0 \<and> 0 < cache_size cfg
            \<and> search cfg cat R query (Some (k_or_default cfg k)) = Inr [] \<longrightarrow>
             fst (run cfg E cat R st t0 t1 query k page per_page opt)
               = success_response query page per_page [] t0 t1
           \<and> map_of (fst (run cfg E cat R st t0 t1 query k page per_page opt)) ''error'' = None
           \<and> map_of (fst (run cfg E cat R st t0 t1 query k page per_page opt)) ''items''
               = Some (VItems []))"
proof -
  let ?key = "cache_key_of cfg query k page per_page opt"
  let ?run = "run_core cfg E st t0 t1 outcome query k page per_page opt"
  let ?blk = "try_block cfg E st t0 t1 outcome query k page per_page opt"
  let ?search = "search cfg cat R query (Some (k_or_default cfg k))"
  let ?real = "run cfg E cat R st t0 t1 query k page per_page opt"
  have a: "has_fields (fst ?run) \<and> cache_ok cfg E (snd ?run)"
    by (rule run_core_keeps [OF ok])
  have b: "\<forall>e. outcome = Inl e \<longrightarrow> ?blk = Inl e"
    using try_block_raises by blast
  have c: "fst ?run = error_response query page per_page e t0 t1
           \<and> map_of (fst ?run) ''error'' = Some (VStr e)
           \<and> map_of (fst ?run) ''items'' = Some (VItems [])"
    if "\<not> is_hit (fst (get_cached_result st t0 ?key))" "?blk = Inl e" for e
    using run_core_miss [OF that(1), of E t1 outcome] that(2)
    by (simp add: error_response_def)
  have d: "map_of (fst ?run) ''error'' = None"
    if m: "\<not> is_hit (fst (get_cached_result st t0 ?key))" and t: "?blk = Inr rs" for rs
  proof -
    from try_block_cases [OF ok, of t0 t1 outcome query k page per_page opt] t
    obtain chunks st' where "?blk = Inr (success_response query page per_page
                 (search_hits_of E (search_options_of cfg (opts_or_empty opt)) query chunks)
                 t0 t1, st')" by auto
    then show ?thesis using run_core_miss [OF m, of E t1 outcome] no_error_success by simp
  qed
  have e: "has_fields (fst ?real) \<and> cache_ok cfg E (snd ?real)"
    unfolding run_def by (rule run_core_keeps [OF ok])
  have f: "\<exists>chunks. ?search = Inr chunks" by (rule search_returns)
  have g: "?search = Inr []"
    if "query_embedding R = None \<or> (vector_hits R = None \<and> fts_rows R = None)"
    using that by (rule search_down)
  have h: "fst ?real = success_response query page per_page [] t0 t1
           \<and> map_of (fst ?real) ''error'' = None
           \<and> map_of (fst ?real) ''items'' = Some (VItems [])"
    if "\<not> is_hit (fst (get_cached_result st t0 ?key))" "per_page \<noteq> 0" "0 < cache_size cfg"
       "?search = Inr []"
  proof -
    have r: "fst ?real = success_response query page per_page [] t0 t1"
      using that by (rule run_empty_result)
    show ?thesis unfolding r
      by (simp add: success_response_def py_slice_def clamp_index_def)
  qed
  have c': "\<forall>e. \<not> is_hit (fst (get_cached_result st t0 ?key)) \<and> ?blk = Inl e \<longrightarrow>
             fst ?run = error_response query page per_page e t0 t1
           \<and> map_of (fst ?run) ''error'' = Some (VStr e)
           \<and> map_of (fst ?run) ''items'' = Some (VItems [])"
    using c by blast
  have d': "\<forall>rs. \<not> is_hit (fst (get_cached_result st t0 ?key)) \<and> ?blk = Inr rs \<longrightarrow>
             map_of (fst ?run) ''error'' = None"
    using d by blast
  have g': "query_embedding R = None \<or> (vector_hits R = None \<and> fts_rows R = None) \<longrightarrow>
             ?search = Inr []"
    using g by blast
  have h': "\<not> is_hit (fst (get_cached_result st t0 ?key)) \<and> per_page \<noteq> 0
            \<and> 0 < cache_size cfg \<and> ?search = Inr [] \<longrightarrow>
             fst ?real = success_response query page per_page [] t0 t1
           \<and> map_of (fst ?real) ''error'' = None
           \<and> map_of (fst ?real) ''items'' = Some (VItems [])"
    using h by blast
  from a have a1: "has_fields (fst ?run)" and a2: "cache_ok cfg E (snd ?run)" by simp_all
  from e have e1: "has_fields (fst ?real)" and e2: "cache_ok cfg E (snd ?real)" by simp_all
  show ?thesis by (intro conjI) (rule a1 a2 b c' d' e1 e2 f g' h')+
qed

text \<open>
  Claim C7. For a response of \<open>SearchAPI.run\<close> without \<open>error\<close> to a request for page
  \<open>page\<close> with \<open>per_page \<ge> 1\<close> (from a cache that holds only responses \<open>run\<close> built), with
  \<open>T\<close> its \<open>total_hits\<close>: \<open>total_pages\<close> is \<open>T / per_page\<close> rounded up, \<open>has_next\<close> holds iff
  \<open>page < total_pages\<close> and \<open>has_prev\<close> iff \<open>page > 1\<close>; and there is a retriever result for
  the query of whose ranked hits (under the options of the request) \<open>T\<close> is the number and
  \<open>items\<close> is the slice from \<open>(page - 1) * per_page\<close> to \<open>page * per_page\<close>, which for
  \<open>page \<ge> 1\<close> is the \<open>per_page\<close> hits after the first \<open>(page - 1) * per_page\<close>. On a
  computed response (no cache hit) it is the retriever's result of this call; a cache hit
  returns the response of the call that computed it.
\<close>

theorem run_core_pagination:
  assumes ok: "cache_ok cfg E st" and pp: "1 \<le> per_page"
    and succ: "map_of (fst (run_core cfg E st t0 t1 outcome query k page per_page opt)) ''error''
                 = None"
  shows "paginated page per_page (fst (run_core cfg E st t0 t1 outcome query k page per_page opt))
       \<and> (\<exists>chunks.
             map_of (fst (run_core cfg E st t0 t1 outcome query k page per_page opt))
                 ''total_hits''
               = Some (VInt (int (length (search_hits_of E
                   (search_options_of cfg (opts_or_empty opt)) query chunks))))
           \<and> map_of (fst (run_core cfg E st t0 t1 outcome query k page per_page opt))
                 ''items''
               = Some (VItems (py_slice (search_hits_of E
                   (search_options_of cfg (opts_or_empty opt)) query chunks)
                   ((page - 1) * per_page) (page * per_page)))
           \<and> (1 \<le> page \<longrightarrow>
                 py_slice (search_hits_of E
                   (search_options_of cfg (opts_or_empty opt)) query chunks)
                   ((page - 1) * per_page) (page * per_page)
                   = take (nat per_page) (drop (nat ((page - 1) * per_page))
                       (search_hits_of E
                          (search_options_of cfg (opts_or_empty opt)) query chunks)))
           \<and> (\<not> is_hit (fst (get_cached_result st t0
                     (cache_key_of cfg query k page per_page opt))) \<longrightarrow>
                 outcome = Inr chunks))"
proof -
  let ?run = "run_core cfg E st t0 t1 outcome query k page per_page opt"
  let ?blk = "try_block cfg E st t0 t1 outcome query k page per_page opt"
  let ?so = "search_options_of cfg (opts_or_empty opt)"
  have tk: "py_slice hits ((page - 1) * per_page) (page * per_page)
              = take (nat per_page) (drop (nat ((page - 1) * per_page)) hits)"
    if "1 \<le> page" for hits :: "search_hit list"
  proof -
    have "0 \<le> (page - 1) * per_page" using that pp by simp
    moreover have "0 \<le> per_page" using pp by simp
    ultimately show ?thesis
      using py_slice_page [of "(page - 1) * per_page" per_page hits] page_end [of page per_page]
      by simp
  qed
  show ?thesis
  proof (cases "is_hit (fst (get_cached_result st t0
                   (cache_key_of cfg query k page per_page opt)))")
    case True
    have p: "paginated page per_page (fst ?run)" by (rule run_core_hit_ok(3) [OF ok True pp])
    from run_core_hit_ok(4) [OF ok True, of t1 outcome]
    obtain chunks
      where th: "map_of (fst ?run) ''total_hits''
                   = Some (VInt (int (length (search_hits_of E ?so query chunks))))"
        and it: "map_of (fst ?run) ''items''
                   = Some (VItems (py_slice (search_hits_of E ?so query chunks)
                        ((page - 1) * per_page) (page * per_page)))"
      unfolding page_of_hits_def by blast
    show ?thesis using p th it tk [of "search_hits_of E ?so query chunks"] True by blast
  next
    case False
    note miss = run_core_miss [OF False, of E t1 outcome]
    have "\<not> (\<exists>e. ?blk = Inl e)"
    proof
      assume "\<exists>e. ?blk = Inl e"
      then obtain e where "?blk = Inl e" by blast
      with miss have "map_of (fst ?run) ''error'' = Some (VStr e)"
        by (simp add: error_response_def)
      with succ show False by simp
    qed
    with try_block_cases [OF ok, of t0 t1 outcome query k page per_page opt]
    obtain chunks st' where o: "outcome = Inr chunks"
      and t: "?blk = Inr (success_response query page per_page
                   (search_hits_of E ?so query chunks) t0 t1, st')" by blast
    have r: "fst ?run = success_response query page per_page
                   (search_hits_of E ?so query chunks) t0 t1"
      using miss t by simp
    have p: "paginated page per_page (fst ?run)" unfolding r by (rule paginated_success [OF pp])
    have th: "map_of (fst ?run) ''total_hits''
                = Some (VInt (int (length (search_hits_of E ?so query chunks))))"
      unfolding r by (simp add: success_response_def)
    have it: "map_of (fst ?run) ''items''
                = Some (VItems (py_slice (search_hits_of E ?so query chunks)
                           ((page - 1) * per_page) (page * per_page)))"
      unfolding r by (simp add: success_response_def page_end)
    show ?thesis using p o th it tk [of "search_hits_of E ?so query chunks"] by blast
  qed
qed

text \<open>
  Five ranked hits, two per page, page three (snippets switched off): the last hit alone,
  and no next page. The same request again, two seconds later and with a retriever that is
  down, is answered from the cache with the same page.
\<close>

theorem run_core_pagination_witness:
  "cache_ok ex_search_config ex_env empty_api \<and> (1::int) \<le> 2
   \<and> map_of (fst (run_core ex_search_config ex_env empty_api 0 1 (Inr ex_chunks)
        ''test'' (Some 10) 3 2 (Some ex_opts_plain))) ''error'' = None
   \<and> paginated 3 2 (fst (run_core ex_search_config ex_env empty_api 0 1 (Inr ex_chunks)
        ''test'' (Some 10) 3 2 (Some ex_opts_plain)))
   \<and> map (map_of (fst (run_core ex_search_config ex_env empty_api 0 1 (Inr ex_chunks)
        ''test'' (Some 10) 3 2 (Some ex_opts_plain))))
        [''total_hits'', ''total_pages'', ''has_next'', ''has_prev'']
      = [Some (VInt 5), Some (VInt 3), Some (VBool False), Some (VBool True)]
   \<and> items_of (fst (run_core ex_search_config ex_env empty_api 0 1 (Inr ex_chunks)
        ''test'' (Some 10) 3 2 (Some ex_opts_plain))) = [''c4'']
   \<and> snd (run_core ex_search_config ex_env empty_api 0 1 (Inr ex_chunks)
        ''test'' (Some 10) 3 2 (Some ex_opts_plain)) = ex_api_page3
   \<and> cache_ok ex_search_config ex_env ex_api_page3
   \<and> is_hit (fst (get_cached_result ex_api_page3 2
        (cache_key_of ex_search_config ''test'' (Some 10) 3 2 (Some ex_opts_plain))))
   \<and> map_of (fst (run_core ex_search_config ex_env ex_api_page3 2 3 (Inl ''connection refused'')
        ''test'' (Some 10) 3 2 (Some ex_opts_plain))) ''error'' = None
   \<and> paginated 3 2 (fst (run_core ex_search_config ex_env ex_api_page3 2 3
        (Inl ''connection refused'') ''test'' (Some 10) 3 2 (Some ex_opts_plain)))
   \<and> map (map_of (fst (run_core ex_search_config ex_env ex_api_page3 2 3
        (Inl ''connection refused'') ''test'' (Some 10) 3 2 (Some ex_opts_plain))))
        [''total_hits'', ''total_pages'', ''has_next'', ''has_prev'', ''cache_hit'']
      = [Some (VInt 5), Some (VInt 3), Some (VBool False), Some (VBool True), Some (VBool True)]
   \<and> items_of (fst (run_core ex_search_config ex_env ex_api_page3 2 3
        (Inl ''connection refused'') ''test'' (Some 10) 3 2 (Some ex_opts_plain))) = [''c4'']"
proof -
  have ok: "cache_ok ex_search_config ex_env empty_api" by (simp add: cache_ok_def empty_api_def)
  have pp: "(1::int) \<le> 2" by simp
  have ev: "run_core ex_search_config ex_env empty_api 0 1 (Inr ex_chunks)
        ''test'' (Some 10) 3 2 (Some ex_opts_plain) = (ex_page3, ex_api_page3)"
    by code_simp
  have ne: "map_of (fst (run_core ex_search_config ex_env empty_api 0 1 (Inr ex_chunks)
        ''test'' (Some 10) 3 2 (Some ex_opts_plain))) ''error'' = None"
    unfolding ev by (simp add: ex_page3_def)
  have f: "map (map_of (fst (run_core ex_search_config ex_env empty_api 0 1 (Inr ex_chunks)
        ''test'' (Some 10) 3 2 (Some ex_opts_plain))))
        [''total_hits'', ''total_pages'', ''has_next'', ''has_prev'']
      = [Some (VInt 5), Some (VInt 3), Some (VBool False), Some (VBool True)]"
    unfolding ev by (simp add: ex_page3_def)
  have i: "items_of (fst (run_core ex_search_config ex_env empty_api 0 1 (Inr ex_chunks)
        ''test'' (Some 10) 3 2 (Some ex_opts_plain))) = [''c4'']"
    unfolding ev by (simp add: items_of_def ex_page3_def)
  have s: "snd (run_core ex_search_config ex_env empty_api 0 1 (Inr ex_chunks)
        ''test'' (Some 10) 3 2 (Some ex_opts_plain)) = ex_api_page3"
    unfolding ev by simp
  from run_core_pagination [OF ok pp ne]
  have p: "paginated 3 2 (fst (run_core ex_search_config ex_env empty_api 0 1 (Inr ex_chunks)
        ''test'' (Some 10) 3 2 (Some ex_opts_plain)))" by simp
  have ok': "cache_ok ex_search_config ex_env ex_api_page3"
    using run_core_keeps [OF ok, of 0 1 "Inr ex_chunks" "''test''"
        "Some 10" 3 2 "Some ex_opts_plain"] unfolding ev by simp
  have hit: "is_hit (fst (get_cached_result ex_api_page3 2
        (cache_key_of ex_search_config ''test'' (Some 10) 3 2 (Some ex_opts_plain))))"
    by code_simp
  have ev': "fst (run_core ex_search_config ex_env ex_api_page3 2 3 (Inl ''connection refused'')
        ''test'' (Some 10) 3 2 (Some ex_opts_plain))
      = dict_set ''cache_hit'' (VBool True) ex_page3"
    by code_simp
  have ne': "map_of (fst (run_core ex_search_config ex_env ex_api_page3 2 3
        (Inl ''connection refused'') ''test'' (Some 10) 3 2 (Some ex_opts_plain))) ''error''
      = None"
    unfolding ev' by (simp add: ex_page3_def)
  have f': "map (map_of (fst (run_core ex_search_config ex_env ex_api_page3 2 3
        (Inl ''connection refused'') ''test'' (Some 10) 3 2 (Some ex_opts_plain))))
        [''total_hits'', ''total_pages'', ''has_next'', ''has_prev'', ''cache_hit'']
      = [Some (VInt 5), Some (VInt 3), Some (VBool False), Some (VBool True), Some (VBool True)]"
    unfolding ev' by (simp add: ex_page3_def)
  have i': "items_of (fst (run_core ex_search_config ex_env ex_api_page3 2 3
        (Inl ''connection refused'') ''test'' (Some 10) 3 2 (Some ex_opts_plain))) = [''c4'']"
    unfolding ev' by (simp add: items_of_def ex_page3_def)
  from run_core_pagination [OF ok' pp ne']
  have p': "paginated 3 2 (fst (run_core ex_search_config ex_env ex_api_page3 2 3
        (Inl ''connection refused'') ''test'' (Some 10) 3 2 (Some ex_opts_plain)))" by simp
  show ?thesis using ok pp ne p f i s ok' hit ne' p' f' i' by blast
qed

text \<open>
  A retriever that raises, and a request for zero hits per page: both come back as error
  responses with all fields and no items.
\<close>

theorem run_core_structured_witness:
  "cache_ok ex_search_config ex_env empty_api
   \<and> fst (run_core ex_search_config ex_env empty_api 0 1 (Inl ''connection refused'')
        ''test'' None 1 10 None)
      = error_response ''test'' 1 10 ''connection refused'' 0 1
   \<and> has_fields (fst (run_core ex_search_config ex_env empty_api 0 1 (Inl ''connection refused'')
        ''test'' None 1 10 None))
   \<and> map_of (fst (run_core ex_search_config ex_env empty_api 0 1 (Inr ex_chunks)
        ''test'' None 1 0 None)) ''error'' = Some (VStr ''integer division or modulo by zero'')
   \<and> map_of (fst (run_core ex_search_config ex_env empty_api 0 1 (Inr ex_chunks)
        ''test'' None 1 0 None)) ''items'' = Some (VItems [])"
proof -
  have ok: "cache_ok ex_search_config ex_env empty_api" by (simp add: cache_ok_def empty_api_def)
  have m1: "\<not> is_hit (fst (get_cached_result empty_api 0
          (cache_key_of ex_search_config ''test'' None 1 10 None)))" by code_simp
  have m2: "\<not> is_hit (fst (get_cached_result empty_api 0
          (cache_key_of ex_search_config ''test'' None 1 0 None)))" by code_simp
  have t2: "try_block ex_search_config ex_env empty_api 0 1 (Inr ex_chunks) ''test'' None 1 0 None
              = Inl ''integer division or modulo by zero''"
    by (simp add: try_block_def run_body_def)
  note a = run_core_structured [OF ok, of 0 1 "Inl ''connection refused''"
      "''test''" None 1 10 None]
  note b = run_core_structured [OF ok, of 0 1 "Inr ex_chunks"
      "''test''" None 1 0 None]
  from a have t1: "try_block ex_search_config ex_env empty_api 0 1 (Inl ''connection refused'')
      ''test'' None 1 10 None = Inl ''connection refused''" by blast
  from a m1 t1 have r1: "fst (run_core ex_search_config ex_env empty_api 0 1
        (Inl ''connection refused'') ''test'' None 1 10 None)
      = error_response ''test'' 1 10 ''connection refused'' 0 1" by blast
  from a have f1: "has_fields (fst (run_core ex_search_config ex_env empty_api 0 1
        (Inl ''connection refused'') ''test'' None 1 10 None))" by blast
  from b m2 t2 have r2: "map_of (fst (run_core ex_search_config ex_env empty_api 0 1 (Inr ex_chunks)
        ''test'' None 1 0 None)) ''error'' = Some (VStr ''integer division or modulo by zero'')
   \<and> map_of (fst (run_core ex_search_config ex_env empty_api 0 1 (Inr ex_chunks)
        ''test'' None 1 0 None)) ''items'' = Some (VItems [])" by blast
  from ok r1 f1 r2 show ?thesis by blast
qed

text \<open>
  Claim C8 as written fails on the code: a failure of the underlying retrieval does not
  populate \<open>error\<close>. With the embedder, the vector store and the full-text search all
  down the hybrid retriever returns an empty list, and \<open>run\<close> answers with an ordinary
  response: no hits, no items and no \<open>error\<close> field.
\<close>

theorem run_error_counterexample:
  "query_embedding ex_retrieval_down = None
   \<and> vector_hits ex_retrieval_down = None
   \<and> fts_rows ex_retrieval_down = None
   \<and> search ex_search_config ex_catalog ex_retrieval_down ''test'' (Some 50) = Inr []
   \<and> map (map_of (fst (run ex_search_config ex_env ex_catalog ex_retrieval_down empty_api 0 1
        ''test'' None 1 10 None))) [''error'', ''total_hits'', ''items'', ''cache_hit'']
      = [None, Some (VInt 0), Some (VItems []), Some (VBool False)]"
  by code_simp

text \<open>
  Claim C6 fails on the code. The hybrid retriever deduplicates by file with its default
  of one chunk per file before \<open>run\<close> applies the option, so a larger
  \<open>max_results_per_file\<close> finds nothing left to keep. Chunks \<open>A\<close> and \<open>B\<close> of file \<open>f1\<close>
  are both ranked by score fusion and the option asks for two chunks per file (snippets
  switched off); \<open>run\<close> returns one chunk of \<open>f1\<close>.
\<close>

theorem max_results_per_file_ignored:
  "ranking (merge_and_score ex_search_config ex_catalog ''zebra''
      (vector_candidates ex_retrieval) (lexical_candidates ex_retrieval) None None)
     = [(''B'', 0.55), (''A'', 0.45), (''C'', 0)]
   \<and> so_max_results_per_file (search_options_of ex_search_config ex_opts_two_per_file) = 2
   \<and> hit_files (fst (run ex_search_config ex_env ex_catalog ex_retrieval empty_api 0 1
        ''zebra'' None 1 10 (Some ex_opts_two_per_file)))
     = [(''B'', ''f1''), (''C'', ''f2'')]"
  by code_simp

section \<open>The indexer and its catalog\<close>

lemma files_fold_fts:
  "files (fold (\<lambda>c cat. fts_insert cat (c_chunk_id c) (c_text c) (c_path c)) cs cat) = files cat"
  by (induction cs arbitrary: cat) (simp_all add: fts_insert_def)

lemma files_persist_file:
  "files (ix_catalog (persist_file E p sz mtime fid sha cs ix))
     = (files (ix_catalog ix))(file_id E p mtime sz \<mapsto>
          \<lparr>f_path = p, f_size = sz, f_mtime = mtime, f_sha256 = sha\<rparr>)"
  by (simp add: persist_file_def files_fold_fts insert_chunks_def upsert_file_def Let_def
        catalog_generate_file_id_def file_id_def)

lemma chunks_fold_fts:
  "chunks (fold (\<lambda>c cat. fts_insert cat (c_chunk_id c) (c_text c) (c_path c)) cs cat) = chunks cat"
  by (induction cs arbitrary: cat) (simp_all add: fts_insert_def)

text \<open>
  Claim C9. \<open>Catalog._generate_file_id\<close> and \<open>ids.file_id\<close> are the same function of
  \<open>(path, mtime, size)\<close>, so \<open>upsert_file\<close> returns, and writes the row under, the id
  the indexer computed; after \<open>_process_file\<close> has persisted a file, its row is stored under
  that id and every chunk row it inserted carries it.
\<close>

theorem upsert_file_key:
  "catalog_generate_file_id E path mtime sz = file_id E path mtime sz
   \<and> fst (upsert_file E cat path sz mtime sha) = file_id E path mtime sz
   \<and> files (snd (upsert_file E cat path sz mtime sha)) (file_id E path mtime sz)
       = Some \<lparr>f_path = path, f_size = sz, f_mtime = mtime, f_sha256 = sha\<rparr>
   \<and> files (ix_catalog (persist_file E path sz mtime (file_id E path mtime sz) sha cs ix))
         (fst (upsert_file E (ix_catalog ix) path sz mtime sha))
       = Some \<lparr>f_path = path, f_size = sz, f_mtime = mtime, f_sha256 = sha\<rparr>
   \<and> chunks (ix_catalog (persist_file E path sz mtime (file_id E path mtime sz) sha cs ix))
       = filter (\<lambda>r. r_file_id r \<noteq> fst (upsert_file E (ix_catalog ix) path sz mtime sha))
           (chunks (ix_catalog ix))
         @ map (chunk_row_of (fst (upsert_file E (ix_catalog ix) path sz mtime sha))) cs"
proof -
  have a: "catalog_generate_file_id E path mtime sz = file_id E path mtime sz"
    by (simp add: catalog_generate_file_id_def file_id_def)
  have b: "fst (upsert_file E c path sz mtime sha) = file_id E path mtime sz" for c
    by (simp add: upsert_file_def a Let_def)
  have c: "files (snd (upsert_file E cat path sz mtime sha)) (file_id E path mtime sz)
       = Some \<lparr>f_path = path, f_size = sz, f_mtime = mtime, f_sha256 = sha\<rparr>"
    by (simp add: upsert_file_def a Let_def)
  have d: "files (ix_catalog (persist_file E path sz mtime (file_id E path mtime sz) sha cs ix))
         (file_id E path mtime sz)
       = Some \<lparr>f_path = path, f_size = sz, f_mtime = mtime, f_sha256 = sha\<rparr>"
    by (simp add: files_persist_file)
  have e: "chunks (ix_catalog (persist_file E path sz mtime (file_id E path mtime sz) sha cs ix))
      = filter (\<lambda>r. r_file_id r \<noteq> file_id E path mtime sz) (chunks (ix_catalog ix))
        @ map (chunk_row_of (file_id E path mtime sz)) cs"
    by (simp add: persist_file_def chunks_fold_fts insert_chunks_def upsert_file_def Let_def)
  show ?thesis unfolding b using a c d e by simp
qed

theorem upsert_file_key_witness:
  "fst (upsert_file ex_env empty_catalog ''/docs/notes.txt'' 17 42 ''abc'')
     = ''/docs/notes.txt|42|17''
   \<and> file_id ex_env ''/docs/notes.txt'' 42 17 = ''/docs/notes.txt|42|17''"
proof -
  have "file_id ex_env ''/docs/notes.txt'' 42 17 = ''/docs/notes.txt|42|17''" by code_simp
  with upsert_file_key [of ex_env "''/docs/notes.txt''" 42 17 empty_catalog "''abc''"]
  show ?thesis by simp
qed

text \<open>
  Claim C2 fails on the code. After \<open>_process_file\<close> has persisted a file, the catalog holds
  the SHA-256 of the extracted text under the file's id. Processing the unchanged file again
  compares that digest with the SHA-256 of the file's raw bytes (\<open>generate_file_sha256\<close>):
  the file is skipped only when the two digests agree, and otherwise it is extracted,
  chunked and persisted again, creating as many chunks as the first time.
\<close>

theorem process_file_rerun:
  assumes allowed: "lower (path_suffix p) \<in> set (allow_exts cfg)"
    and included: "\<not> should_exclude E cfg p"
    and node: "fs p = Some n" "n_kind n = RegularFile"
    and extracted: "extract_text E fs p = Some txt" "txt \<noteq> []"
    and chunked: "chunk_text E cfg txt p (file_id E p (n_mtime n) (n_size n)) (n_mtime n) = Some cs"
    and first: "ix1 = persist_file E p (n_size n) (n_mtime n)
                        (file_id E p (n_mtime n) (n_size n)) (sha256_hex E txt) cs ix0"
  shows "process_file E cfg fs p ix1 =
           (if sha256_hex E txt \<noteq> [] \<and> sha256_hex E (n_content n) = sha256_hex E txt
            then Some (skip_file ix1)
            else Some (persist_file E p (n_size n) (n_mtime n)
                         (file_id E p (n_mtime n) (n_size n)) (sha256_hex E txt) cs ix1))
       \<and> (sha256_hex E (n_content n) \<noteq> sha256_hex E txt \<longrightarrow>
            map_option (\<lambda>ix. chunks_created (ix_stats ix)) (process_file E cfg fs p ix1)
              = Some (chunks_created (ix_stats ix1) + int (length cs)))"
proof -
  have st: "get_file_stats fs p = Some (n_size n, n_mtime n)"
    using node by (simp add: get_file_stats_def)
  have gen: "generate_file_sha256 E fs p = Some (sha256_hex E (n_content n))"
    using node by (simp add: generate_file_sha256_def)
  have ex: "get_existing_sha256 (ix_catalog ix1) (file_id E p (n_mtime n) (n_size n))
              = Some (sha256_hex E txt)"
    unfolding first by (simp add: get_existing_sha256_def files_persist_file)
  have a: "process_file E cfg fs p ix1 =
           (if sha256_hex E txt \<noteq> [] \<and> sha256_hex E (n_content n) = sha256_hex E txt
            then Some (skip_file ix1)
            else Some (persist_file E p (n_size n) (n_mtime n)
                         (file_id E p (n_mtime n) (n_size n)) (sha256_hex E txt) cs ix1))"
    using allowed included st extracted chunked ex gen
    by (auto simp: process_file_def)
  have "chunks_created (ix_stats (persist_file E p (n_size n) (n_mtime n)
                         (file_id E p (n_mtime n) (n_size n)) (sha256_hex E txt) cs ix1))
          = chunks_created (ix_stats ix1) + int (length cs)"
    by (simp add: persist_file_def)
  with a show ?thesis by simp
qed

text \<open>
  A text file with a Windows line end under \<open>/docs\<close>: reading it in text mode turns
  \<open>\r\n\<close> into \<open>\n\<close>, so the digest of the text differs from the digest of the bytes. The
  second complete run creates the chunk and sends the vector again and skips nothing. The
  same file with a Unix line end is skipped by the second run.
\<close>

theorem process_file_rerun_witness:
  "sha256_hex ex_env_embed crlf_text \<noteq> sha256_hex ex_env_embed lf_text
   \<and> map_option (\<lambda>ix. chunks_created (ix_stats ix))
        (process_file ex_env_embed ex_default_index_config ex_fs_crlf ''/docs/notes.txt''
           (persist_file ex_env_embed ''/docs/notes.txt'' 17 42
              (file_id ex_env_embed ''/docs/notes.txt'' 42 17) (sha256_hex ex_env_embed lf_text)
              (the (chunk_text ex_env_embed ex_default_index_config lf_text ''/docs/notes.txt''
                      (file_id ex_env_embed ''/docs/notes.txt'' 42 17) 42))
              \<lparr>ix_catalog = empty_catalog, ix_points = [], ix_stats = zero_stats\<rparr>))
      = Some 2
   \<and> run_report (index_once ex_fs_crlf empty_catalog []) = Some (1, 0, 1)
   \<and> run_report (index_twice ex_fs_crlf) = Some (1, 0, 2)
   \<and> run_report (index_twice ex_fs_lf) = Some (0, 1, 1)"
proof -
  let ?E = ex_env_embed and ?cfg = ex_default_index_config and ?p = "''/docs/notes.txt''"
  let ?n = "ex_file 11 crlf_text"
  let ?fid = "file_id ex_env_embed ''/docs/notes.txt'' 42 17"
  let ?cs = "the (chunk_text ?E ?cfg lf_text ?p ?fid 42)"
  let ?ix0 = "\<lparr>ix_catalog = empty_catalog, ix_points = [], ix_stats = zero_stats\<rparr>"
  have h1: "lower (path_suffix ?p) \<in> set (allow_exts ?cfg)" by code_simp
  have h2: "\<not> should_exclude ?E ?cfg ?p" by code_simp
  have h3: "ex_fs_crlf ?p = Some ?n" by (simp add: ex_fs_crlf_def)
  have h4: "n_kind ?n = RegularFile" by (simp add: ex_file_def)
  have nm: "n_mtime ?n = 42" and ns: "n_size ?n = 17" and nc: "n_content ?n = crlf_text"
    by (simp_all add: ex_file_def crlf_text_def)
  have h5: "extract_text ?E ex_fs_crlf ?p = Some lf_text" by code_simp
  have h6: "lf_text \<noteq> []" by (simp add: lf_text_def)
  have "chunk_text ?E ?cfg lf_text ?p ?fid 42 \<noteq> None" by code_simp
  then have h7: "chunk_text ?E ?cfg lf_text ?p (file_id ?E ?p (n_mtime ?n) (n_size ?n)) (n_mtime ?n)
                   = Some ?cs"
    unfolding nm ns by simp
  have len: "length ?cs = 1" by code_simp
  have d: "sha256_hex ?E crlf_text \<noteq> sha256_hex ?E lf_text" by code_simp
  have c0: "chunks_created (ix_stats (persist_file ?E ?p 17 42 ?fid (sha256_hex ?E lf_text) ?cs ?ix0))
              = 1"
    using len by (simp add: persist_file_def zero_stats_def)
  from process_file_rerun [OF h1 h2 h3 h4 h5 h6 h7 refl, of ?ix0, THEN conjunct2] d
  have a: "map_option (\<lambda>ix. chunks_created (ix_stats ix))
        (process_file ?E ?cfg ex_fs_crlf ?p
           (persist_file ?E ?p 17 42 ?fid (sha256_hex ?E lf_text) ?cs ?ix0)) = Some 2"
    unfolding nm ns nc using c0 len by simp
  have r1: "run_report (index_once ex_fs_crlf empty_catalog []) = Some (1, 0, 1)" by code_simp
  have r2: "run_report (index_twice ex_fs_crlf) = Some (1, 0, 2)" by code_simp
  have r3: "run_report (index_twice ex_fs_lf) = Some (0, 1, 1)" by code_simp
  from d a r1 r2 r3 show ?thesis by blast
qed


lemma process_file_raises_cases:
  assumes "process_file_raises E cfg fs file_path ix = Some e"
  shows "storage_error E file_path = Some e
       \<or> (\<exists>stats. get_file_stats fs file_path = Some stats
            \<and> encode_error E
                 (file_path @ ''|'' @ str_int (snd stats) @ ''|'' @ str_int (fst stats)) = Some e)"
  using assms by (auto simp: process_file_raises_def split: if_splits option.splits)
section \<open>The frontier\<close>

lemma seen_process_directory: "seen (process_directory E cfg fs d fr) = seen fr"
  by (simp add: process_directory_def split: option.splits)






end
